theory Spec2Isabelle
  imports Main "HOL-Library.Word" "HOL-Library.Signed_Division"
begin

unbundle bit_operations_syntax

section \<open>Data model of drivers/media/video/uvc/uvc_v4l2.c\<close>

type_synonym u8 = "8 word"
type_synonym u16 = "16 word"
type_synonym u32 = "32 word"

text \<open>
  What a C expression of the file can do besides producing a value: dereference
  a NULL pointer, read an array past its end, divide by zero.  None of them is
  an error return of the driver; each is a branch of the model of its own.
\<close>

datatype fault = NullPointer | OutOfBounds | DivideByZero

text \<open>An array read \<open>a[i]\<close>; the array is a list that knows its length.\<close>

definition rd :: "'a list \<Rightarrow> nat \<Rightarrow> fault + 'a" where
  "rd xs i = (if i < length xs then Inr (xs ! i) else Inl OutOfBounds)"

text \<open>
  \<open>struct uvc_frame\<close> (declared in uvcvideo.h): the fields this file reads.
  \<open>dwFrameInterval\<close> points to \<open>bFrameIntervalType\<close> discrete intervals, or to
  the triple min, max, step when \<open>bFrameIntervalType\<close> is 0.
\<close>

record uvc_frame =
  bFrameIndex :: u8
  wWidth :: u16
  wHeight :: u16
  bFrameIntervalType :: u8
  dwDefaultFrameInterval :: u32
  dwFrameInterval :: "u32 list"

section \<open>uvc_try_frame_interval\<close>

text \<open>
  The distance of the discrete branch:
  \<open>interval > dwFrameInterval[i] ? interval - dwFrameInterval[i]
                                   : dwFrameInterval[i] - interval\<close>.
\<close>

definition interval_dist :: "u32 \<Rightarrow> u32 \<Rightarrow> u32" where
  "interval_dist interval v = (if interval > v then interval - v else v - interval)"

text \<open>
  The \<open>for\<close> loop of the discrete branch, from index \<open>i\<close> with the current
  \<open>best\<close>; it yields the value of \<open>i\<close> when the loop is left, by the
  \<open>break\<close> or by its condition.
\<close>

function interval_loop :: "u32 list \<Rightarrow> nat \<Rightarrow> u32 \<Rightarrow> nat \<Rightarrow> u32 \<Rightarrow> fault + nat" where
  "interval_loop fi n interval i best =
     (if i < n then
        (case rd fi i of
           Inl e \<Rightarrow> Inl e
         | Inr v \<Rightarrow>
             (let dist = interval_dist interval v
              in if dist > best then Inr i
                 else interval_loop fi n interval (Suc i) dist))
      else Inr i)"
  by pat_completeness auto
termination
  by (relation "measure (\<lambda>(fi, n, interval, i, best). n - i)") auto

declare interval_loop.simps [simp del]

definition uvc_try_frame_interval :: "uvc_frame \<Rightarrow> u32 \<Rightarrow> fault + u32" where
  "uvc_try_frame_interval frame interval =
     (if bFrameIntervalType frame \<noteq> 0 then
        (case interval_loop (dwFrameInterval frame) (unat (bFrameIntervalType frame))
                interval 0 (- 1) of
           Inl e \<Rightarrow> Inl e
         | Inr i \<Rightarrow> rd (dwFrameInterval frame) (unat ((word_of_nat i :: u32) - 1)))
      else
        (case rd (dwFrameInterval frame) 0 of
           Inl e \<Rightarrow> Inl e
         | Inr fmin \<Rightarrow>
             (case rd (dwFrameInterval frame) 1 of
                Inl e \<Rightarrow> Inl e
              | Inr fmax \<Rightarrow>
                  (case rd (dwFrameInterval frame) 2 of
                     Inl e \<Rightarrow> Inl e
                   | Inr step \<Rightarrow>
                       if step = 0 then Inl DivideByZero
                       else
                         (let interval' =
                                fmin + (interval - fmin + step div 2) div step * step
                          in Inr (if interval' > fmax then fmax else interval'))))))"

section \<open>Formats, negotiated parameters and the stream\<close>

definition EBUSY :: int where "EBUSY = 16"
definition EINVAL :: int where "EINVAL = 22"

definition V4L2_FIELD_NONE :: u32 where "V4L2_FIELD_NONE = 1"

text \<open>One entry of \<open>format->still_frame.frame[]\<close>.\<close>

record uvc_still_size =
  still_wWidth :: u16
  still_wHeight :: u16

text \<open>
  \<open>struct uvc_format\<close>: \<open>frame\<close> is the array of \<open>nframes\<close> frames,
  \<open>fmt_still_frame\<close> the array \<open>still_frame.frame\<close> of \<open>still_frame.nframes\<close>
  still sizes.
\<close>

record uvc_format =
  index :: u8
  bpp :: u8
  colorspace :: u8
  fcc :: u32
  frame :: "uvc_frame list"
  fmt_still_frame :: "uvc_still_size list"

text \<open>\<open>struct uvc_streaming_control\<close>, the probe and commit block.\<close>

record uvc_streaming_control =
  ctl_bmHint :: u16
  ctl_bFormatIndex :: u8
  ctl_bFrameIndex :: u8
  ctl_dwFrameInterval :: u32
  ctl_wKeyFrameRate :: u16
  ctl_wPFrameRate :: u16
  ctl_wCompQuality :: u16
  ctl_wCompWindowSize :: u16
  ctl_wDelay :: u16
  ctl_dwMaxVideoFrameSize :: u32
  ctl_dwMaxPayloadTransferSize :: u32
  ctl_dwClockFrequency :: u32
  ctl_bmFramingInfo :: u8
  ctl_bPreferedVersion :: u8
  ctl_bMinVersion :: u8
  ctl_bMaxVersion :: u8

text \<open>\<open>memset(probe, 0, sizeof *probe)\<close>.\<close>

definition zero_ctrl :: uvc_streaming_control where
  "zero_ctrl =
     \<lparr>ctl_bmHint = 0, ctl_bFormatIndex = 0, ctl_bFrameIndex = 0, ctl_dwFrameInterval = 0,
      ctl_wKeyFrameRate = 0, ctl_wPFrameRate = 0, ctl_wCompQuality = 0,
      ctl_wCompWindowSize = 0, ctl_wDelay = 0, ctl_dwMaxVideoFrameSize = 0,
      ctl_dwMaxPayloadTransferSize = 0, ctl_dwClockFrequency = 0, ctl_bmFramingInfo = 0,
      ctl_bPreferedVersion = 0, ctl_bMinVersion = 0, ctl_bMaxVersion = 0\<rparr>"

text \<open>\<open>struct v4l2_pix_format\<close> and \<open>struct v4l2_format\<close> (\<open>fmt->fmt.pix\<close>).\<close>

record v4l2_pix_format =
  pix_width :: u32
  pix_height :: u32
  pix_pixelformat :: u32
  pix_field :: u32
  pix_bytesperline :: u32
  pix_sizeimage :: u32
  pix_colorspace :: u32
  pix_priv :: u32

record v4l2_format =
  fmt_type :: u32
  pix :: v4l2_pix_format

text \<open>
  \<open>struct v4l2_streamparm\<close>: \<open>parm.capture.timeperframe\<close> and
  \<open>parm.output.timeperframe\<close> are the same bytes of the union, a fraction
  (numerator, denominator).
\<close>

record v4l2_streamparm =
  parm_type :: u32
  timeperframe :: "u32 \<times> u32"

text \<open>\<open>struct v4l2_buffer\<close>: the fields the buffer ioctls look at.\<close>

record v4l2_buffer =
  buf_index :: u32
  buf_type :: u32
  buf_flags :: u32

text \<open>
  \<open>struct uvc_streaming\<close>.  The two buffer queues belong to uvc_queue.c and
  are kept abstract (\<open>'q\<close>).  \<open>format\<close> is the array of \<open>nformats\<close> formats.
  A pointer into the immutable format table is the value it points to, NULL is
  \<open>None\<close>.  The two tests of \<open>stream->dev->quirks\<close> against
  \<open>UVC_QUIRK_PROBE_EXTRAFIELDS\<close> and \<open>UVC_QUIRK_REDUCE_MEM_USAGE\<close> are the
  two booleans.  \<open>active\<close> is the \<open>atomic_t\<close> counter.
\<close>

record 'q uvc_streaming =
  stream_type :: u32
  quirk_probe_extrafields :: bool
  quirk_reduce_mem_usage :: bool
  format :: "uvc_format list"
  ctrl :: uvc_streaming_control
  cur_format :: "uvc_format option"
  cur_frame :: "uvc_frame option"
  queue :: 'q
  still_ctrl :: uvc_streaming_control
  still_format :: "uvc_format option"
  still_frame :: "uvc_frame option"
  still_queue :: 'q
  still_img_configed :: bool
  still_decoding :: bool
  still_waiting_frame :: bool
  active :: u32

text \<open>
  The functions and macros this file calls and does not define (uvc_video.c,
  uvc_queue.c, uvc_driver.c, uvcvideo.h).  They are parameters of the model,
  with the interfaces the specification gives them: a probe validates a
  candidate block against the device, reads the stream and returns its status
  with the negotiated block; a queue operation acts on the queue it is given
  and returns its status with the new queue (and buffer);
  \<open>uvc_video_enable\<close> starts or stops the main queue.  The traces
  (\<open>uvc_trace\<close>, \<open>uvc_printk\<close>) and the stream mutex are not modelled:
  every function below runs as one step.
\<close>

record 'q uvc_ext =
  uvc_probe_video :: "'q uvc_streaming \<Rightarrow> uvc_streaming_control \<Rightarrow> int \<times> uvc_streaming_control"
  uvc_probe_still :: "'q uvc_streaming \<Rightarrow> uvc_streaming_control \<Rightarrow> int \<times> uvc_streaming_control"
  uvc_trigger_still :: "'q uvc_streaming \<Rightarrow> int"
  uvc_video_enable :: "'q uvc_streaming \<Rightarrow> int \<Rightarrow> int \<times> 'q"
  uvc_queue_allocated :: "'q \<Rightarrow> bool"
  uvc_queue_streaming :: "'q \<Rightarrow> bool"
  uvc_free_buffers :: "'q \<Rightarrow> int \<times> 'q"
  uvc_query_buffer :: "'q \<Rightarrow> v4l2_buffer \<Rightarrow> int \<times> v4l2_buffer"
  uvc_queue_buffer :: "'q \<Rightarrow> v4l2_buffer \<Rightarrow> int \<times> 'q \<times> v4l2_buffer"
  uvc_dequeue_buffer :: "'q \<Rightarrow> v4l2_buffer \<Rightarrow> bool \<Rightarrow> int \<times> 'q \<times> v4l2_buffer"
  uvc_fraction_to_interval :: "u32 \<Rightarrow> u32 \<Rightarrow> u32"
  uvc_simplify_fraction :: "u32 \<times> u32 \<Rightarrow> u32 \<times> u32"
  IS_STILL_BUF :: "v4l2_buffer \<Rightarrow> bool"

section \<open>uvc_v4l2_try_format\<close>

text \<open>
  The format lookup loop; it yields the pointer \<open>format\<close> as the loop leaves it:
  the matching entry after the \<open>break\<close>, else the last entry visited, else
  still NULL.
\<close>

fun format_loop :: "uvc_format list \<Rightarrow> u32 \<Rightarrow> uvc_format option \<Rightarrow> uvc_format option" where
  "format_loop [] pixelformat fm = fm"
| "format_loop (f # fs) pixelformat fm =
     (if fcc f = pixelformat then Some f else format_loop fs pixelformat (Some f))"

text \<open>
  The distance of the frame loop.  \<open>w\<close>, \<open>h\<close>, \<open>rw\<close>, \<open>rh\<close> are \<open>__u16\<close>,
  promoted to 32 bits for the products; \<open>d\<close> is \<open>unsigned int\<close>:
  \<open>d = min(w, rw) * min(h, rh); d = w*h + rw*rh - 2*d;\<close>
\<close>

definition frame_dist :: "u16 \<Rightarrow> u16 \<Rightarrow> u16 \<Rightarrow> u16 \<Rightarrow> u32" where
  "frame_dist w h rw rh =
     (let d = (ucast (min w rw) :: u32) * ucast (min h rh)
      in ucast w * ucast h + ucast rw * ucast rh - 2 * d)"

text \<open>
  The frame loop over \<open>format->frame[i..]\<close>: it yields \<open>i\<close>, \<open>maxd\<close> and
  \<open>frame\<close> as they are when the loop is left.
\<close>

fun frame_loop ::
  "uvc_frame list \<Rightarrow> u16 \<Rightarrow> u16 \<Rightarrow> nat \<Rightarrow> u32 \<Rightarrow> uvc_frame option
     \<Rightarrow> nat \<times> u32 \<times> uvc_frame option" where
  "frame_loop [] rw rh i maxd fr = (i, maxd, fr)"
| "frame_loop (f # fs) rw rh i maxd fr =
     (let d = frame_dist (wWidth f) (wHeight f) rw rh;
          maxd' = (if d < maxd then d else maxd);
          fr' = (if d < maxd then Some f else fr)
      in if maxd' = 0 then (i, maxd', fr')
         else frame_loop fs rw rh (Suc i) maxd' fr')"

text \<open>
  Lines 313 to 328, the selection of the closest frame size: \<open>rw\<close> and
  \<open>rh\<close> are the 16-bit locals that hold the requested size (lines 311 and
  312 assign them from the 32-bit fields of the descriptor, see
  \<open>uvc_v4l2_try_format\<close> below), \<open>maxd\<close> starts at \<open>(unsigned int)-1\<close>
  and \<open>frame\<close> at NULL.
\<close>

definition select_frame_size :: "uvc_format \<Rightarrow> u16 \<Rightarrow> u16 \<Rightarrow> nat \<times> u32 \<times> uvc_frame option" where
  "select_frame_size fm rw rh = frame_loop (frame fm) rw rh 0 (- 1) None"

text \<open>
  \<open>frame->wWidth * frame->wHeight * 2 / 5\<close>: \<open>int\<close> arithmetic, the division
  truncating towards zero, stored into the 32-bit field.
\<close>

definition reduced_frame_size :: "uvc_frame \<Rightarrow> u32" where
  "reduced_frame_size fr =
     word_of_int (sint ((ucast (wWidth fr) :: u32) * ucast (wHeight fr) * 2) sdiv 5)"

text \<open>
  The function yields its return value, the descriptor \<open>*fmt\<close>, the block
  \<open>*probe\<close>, and what it stored through \<open>uvc_format\<close> and \<open>uvc_frame\<close>
  (\<open>None\<close>: nothing stored).
\<close>

definition uvc_v4l2_try_format ::
  "'q uvc_ext \<Rightarrow> 'q uvc_streaming \<Rightarrow> v4l2_format \<Rightarrow> uvc_streaming_control
     \<Rightarrow> fault + (int \<times> v4l2_format \<times> uvc_streaming_control
                   \<times> uvc_format option \<times> uvc_frame option)" where
  "uvc_v4l2_try_format ext stream fmt probe =
     (if fmt_type fmt \<noteq> stream_type stream then Inr (- EINVAL, fmt, probe, None, None)
      else
        (case format_loop (format stream) (pix_pixelformat (pix fmt)) None of
           None \<Rightarrow> Inr (- EINVAL, fmt, probe, None, None)
         | Some fm \<Rightarrow>
             if fcc fm \<noteq> pix_pixelformat (pix fmt) then Inr (- EINVAL, fmt, probe, None, None)
             else
               (case select_frame_size fm (ucast (pix_width (pix fmt)))
                       (ucast (pix_height (pix fmt))) of
                  (i, maxd, None) \<Rightarrow> Inr (- EINVAL, fmt, probe, None, None)
                | (i, maxd, Some fr) \<Rightarrow>
                    (case uvc_try_frame_interval fr (dwDefaultFrameInterval fr) of
                       Inl e \<Rightarrow> Inl e
                     | Inr interval \<Rightarrow>
                         (let probe1 = zero_ctrl
                                \<lparr>ctl_bmHint := 1, ctl_bFormatIndex := index fm,
                                 ctl_bFrameIndex := bFrameIndex fr,
                                 ctl_dwFrameInterval := interval\<rparr>;
                              probe2 = (if quirk_probe_extrafields stream
                                        then probe1\<lparr>ctl_dwMaxVideoFrameSize :=
                                               ctl_dwMaxVideoFrameSize (ctrl stream)\<rparr>
                                        else probe1);
                              probe3 = (if quirk_reduce_mem_usage stream
                                        then probe2\<lparr>ctl_dwMaxVideoFrameSize :=
                                               reduced_frame_size fr\<rparr>
                                        else probe2);
                              (ret, probe4) = uvc_probe_video ext stream probe3
                          in if ret < 0 then Inr (ret, fmt, probe4, None, None)
                             else
                               Inr (ret,
                                    fmt\<lparr>pix := (pix fmt)
                                      \<lparr>pix_width := ucast (wWidth fr),
                                       pix_height := ucast (wHeight fr),
                                       pix_field := V4L2_FIELD_NONE,
                                       pix_bytesperline :=
                                         word_of_nat (unat (bpp fm) * unat (wWidth fr) div 8),
                                       pix_sizeimage := ctl_dwMaxVideoFrameSize probe4,
                                       pix_colorspace := ucast (colorspace fm),
                                       pix_priv := 0\<rparr>\<rparr>,
                                    probe4, Some fm, Some fr))))))"

section \<open>uvc_v4l2_get_format, uvc_v4l2_set_format, uvc_v4l2_set_streamparm\<close>

definition uvc_v4l2_get_format :: "'q uvc_streaming \<Rightarrow> v4l2_format \<Rightarrow> int \<times> v4l2_format" where
  "uvc_v4l2_get_format stream fmt =
     (if fmt_type fmt \<noteq> stream_type stream then (- EINVAL, fmt)
      else
        (case (cur_format stream, cur_frame stream) of
           (Some fm, Some fr) \<Rightarrow>
             (0, fmt\<lparr>pix := (pix fmt)
                   \<lparr>pix_pixelformat := fcc fm,
                    pix_width := ucast (wWidth fr),
                    pix_height := ucast (wHeight fr),
                    pix_field := V4L2_FIELD_NONE,
                    pix_bytesperline := word_of_nat (unat (bpp fm) * unat (wWidth fr) div 8),
                    pix_sizeimage := ctl_dwMaxVideoFrameSize (ctrl stream),
                    pix_colorspace := ucast (colorspace fm),
                    pix_priv := 0\<rparr>\<rparr>)
         | _ \<Rightarrow> (- EINVAL, fmt)))"

text \<open>
  \<open>probe\<close> is the local block of the function, not initialised: its first
  contents are a parameter.  The function yields its return value, the stream
  and the descriptor.
\<close>

definition uvc_v4l2_set_format ::
  "'q uvc_ext \<Rightarrow> uvc_streaming_control \<Rightarrow> 'q uvc_streaming \<Rightarrow> v4l2_format
     \<Rightarrow> fault + (int \<times> 'q uvc_streaming \<times> v4l2_format)" where
  "uvc_v4l2_set_format ext probe stream fmt =
     (if fmt_type fmt \<noteq> stream_type stream then Inr (- EINVAL, stream, fmt)
      else
        (case uvc_v4l2_try_format ext stream fmt probe of
           Inl e \<Rightarrow> Inl e
         | Inr (ret, fmt', probe', fm, fr) \<Rightarrow>
             if ret < 0 then Inr (ret, stream, fmt')
             else if uvc_queue_allocated ext (queue stream) then Inr (- EBUSY, stream, fmt')
             else Inr (ret, stream\<lparr>ctrl := probe', cur_format := fm, cur_frame := fr\<rparr>, fmt')))"

definition uvc_v4l2_set_streamparm ::
  "'q uvc_ext \<Rightarrow> 'q uvc_streaming \<Rightarrow> v4l2_streamparm
     \<Rightarrow> fault + (int \<times> 'q uvc_streaming \<times> v4l2_streamparm)" where
  "uvc_v4l2_set_streamparm ext stream parm =
     (if parm_type parm \<noteq> stream_type stream then Inr (- EINVAL, stream, parm)
      else
        (let interval = uvc_fraction_to_interval ext (fst (timeperframe parm))
                          (snd (timeperframe parm))
         in if uvc_queue_streaming ext (queue stream) then Inr (- EBUSY, stream, parm)
            else
              (case cur_frame stream of
                 None \<Rightarrow> Inl NullPointer
               | Some fr \<Rightarrow>
                   (case uvc_try_frame_interval fr interval of
                      Inl e \<Rightarrow> Inl e
                    | Inr interval' \<Rightarrow>
                        (let (ret, probe) = uvc_probe_video ext stream
                                 ((ctrl stream)\<lparr>ctl_dwFrameInterval := interval'\<rparr>)
                         in if ret < 0 then Inr (ret, stream, parm)
                            else
                              Inr (0, stream\<lparr>ctrl := probe\<rparr>,
                                   parm\<lparr>timeperframe :=
                                     uvc_simplify_fraction ext
                                       (ctl_dwFrameInterval probe, 10000000)\<rparr>))))))"

section \<open>Still image format\<close>

text \<open>
  The loop of \<open>uvc_v4l2_get_still_idx\<close>; it yields \<open>i\<close> as the loop leaves
  it.
\<close>

fun still_idx_loop :: "uvc_still_size list \<Rightarrow> u16 \<Rightarrow> u16 \<Rightarrow> nat \<Rightarrow> nat" where
  "still_idx_loop [] rw rh i = i"
| "still_idx_loop (f # fs) rw rh i =
     (if rw = still_wWidth f \<and> rh = still_wHeight f then i
      else still_idx_loop fs rw rh (Suc i))"

definition uvc_v4l2_get_still_idx :: "v4l2_format \<Rightarrow> uvc_format option \<Rightarrow> int" where
  "uvc_v4l2_get_still_idx fmt fmo =
     (case fmo of
        None \<Rightarrow> - EINVAL
      | Some fm \<Rightarrow>
          if length (fmt_still_frame fm) = 0 then - EINVAL
          else
            (let rw = (ucast (pix_width (pix fmt)) :: u16);
                 rh = (ucast (pix_height (pix fmt)) :: u16);
                 i = still_idx_loop (fmt_still_frame fm) rw rh 0
             in if i < length (fmt_still_frame fm) then int i + 1 else - EINVAL))"

text \<open>
  \<open>uvc_v4l2_try_format_still\<close> yields its return value and the block
  \<open>*probe\<close>.  It never writes the descriptor, and it never stores through its
  parameters \<open>uvc_format\<close> and \<open>uvc_frame\<close>.
\<close>

definition uvc_v4l2_try_format_still ::
  "'q uvc_ext \<Rightarrow> 'q uvc_streaming \<Rightarrow> v4l2_format \<Rightarrow> uvc_streaming_control
     \<Rightarrow> int \<times> uvc_streaming_control" where
  "uvc_v4l2_try_format_still ext stream fmt probe =
     (if fmt_type fmt \<noteq> stream_type stream then (- EINVAL, probe)
      else
        (case format_loop (format stream) (pix_pixelformat (pix fmt)) None of
           None \<Rightarrow> (- EINVAL, probe)
         | Some fm \<Rightarrow>
             if fcc fm \<noteq> pix_pixelformat (pix fmt) then (- EINVAL, probe)
             else
               (let ret = uvc_v4l2_get_still_idx fmt (Some fm)
                in if ret < 0 then (- EINVAL, probe)
                   else uvc_probe_still ext stream
                          (zero_ctrl\<lparr>ctl_bFormatIndex := index fm,
                                     ctl_bFrameIndex := word_of_int ret\<rparr>))))"

text \<open>
  \<open>uvc_v4l2_set_format_still\<close>: \<open>probe\<close> is the local block, not initialised;
  the locals \<open>format\<close> and \<open>frame\<close> are initialised to NULL and are what the
  commit stores.
\<close>

definition uvc_v4l2_set_format_still ::
  "'q uvc_ext \<Rightarrow> uvc_streaming_control \<Rightarrow> 'q uvc_streaming \<Rightarrow> v4l2_format
     \<Rightarrow> int \<times> 'q uvc_streaming" where
  "uvc_v4l2_set_format_still ext probe stream fmt =
     (if fmt_type fmt \<noteq> stream_type stream then (- EINVAL, stream)
      else if still_decoding stream then (- EBUSY, stream)
      else
        (let (ret0, stream1) =
               (if still_img_configed stream then
                  (let (r, q) = uvc_free_buffers ext (still_queue stream)
                   in if r < 0 then (r, stream\<lparr>still_queue := q\<rparr>)
                      else (0, stream\<lparr>still_queue := q, still_img_configed := False\<rparr>))
                else (0, stream))
         in if ret0 < 0 then (ret0, stream1)
            else
              (let (ret, probe') = uvc_v4l2_try_format_still ext stream1 fmt probe
               in if ret < 0 then (ret, stream1)
                  else (ret, stream1\<lparr>still_ctrl := probe', still_format := None,
                                      still_frame := None, still_img_configed := True\<rparr>))))"

text \<open>
  The stream as \<open>uvc_v4l2_set_format_still\<close> hands it to
  \<open>uvc_v4l2_try_format_still\<close>: the old still buffers released and
  \<open>still_img_configed\<close> cleared if a format was configured.
\<close>

definition still_stream1 :: "'q uvc_ext \<Rightarrow> 'q uvc_streaming \<Rightarrow> 'q uvc_streaming" where
  "still_stream1 ext stream =
     (if still_img_configed stream
      then stream\<lparr>still_queue := snd (uvc_free_buffers ext (still_queue stream)),
                  still_img_configed := False\<rparr>
      else stream)"

section \<open>Privilege management\<close>

datatype uvc_handle_state = UVC_HANDLE_PASSIVE | UVC_HANDLE_ACTIVE

text \<open>
  \<open>struct uvc_fh\<close>: \<open>chain\<close> and \<open>stream\<close> are set once at open; the stream
  a handle points to is passed along with it.
\<close>

record uvc_fh =
  state :: uvc_handle_state

definition atomic_inc_return :: "u32 \<Rightarrow> u32 \<times> u32" where
  "atomic_inc_return v = (v + 1, v + 1)"

definition atomic_dec :: "u32 \<Rightarrow> u32" where
  "atomic_dec v = v - 1"

definition uvc_acquire_privileges ::
  "uvc_fh \<Rightarrow> 'q uvc_streaming \<Rightarrow> int \<times> uvc_fh \<times> 'q uvc_streaming" where
  "uvc_acquire_privileges handle stream =
     (if state handle = UVC_HANDLE_ACTIVE then (0, handle, stream)
      else
        (let (r, v) = atomic_inc_return (active stream)
         in if r \<noteq> 1 then (- EBUSY, handle, stream\<lparr>active := atomic_dec v\<rparr>)
            else (0, handle\<lparr>state := UVC_HANDLE_ACTIVE\<rparr>, stream\<lparr>active := v\<rparr>)))"

definition uvc_dismiss_privileges ::
  "uvc_fh \<Rightarrow> 'q uvc_streaming \<Rightarrow> uvc_fh \<times> 'q uvc_streaming" where
  "uvc_dismiss_privileges handle stream =
     (let stream' = (if state handle = UVC_HANDLE_ACTIVE
                     then stream\<lparr>active := atomic_dec (active stream)\<rparr> else stream)
      in (handle\<lparr>state := UVC_HANDLE_PASSIVE\<rparr>, stream'))"

definition uvc_has_privileges :: "uvc_fh \<Rightarrow> bool" where
  "uvc_has_privileges handle = (state handle = UVC_HANDLE_ACTIVE)"

section \<open>File operations\<close>

text \<open>The handle \<open>uvc_v4l2_open\<close> creates when it succeeds.\<close>

definition uvc_v4l2_open :: uvc_fh where
  "uvc_v4l2_open = \<lparr>state = UVC_HANDLE_PASSIVE\<rparr>"

text \<open>
  \<open>uvc_v4l2_release\<close> always returns 0 and frees the handle: it yields the
  stream.  The results of \<open>uvc_video_enable\<close> and \<open>uvc_free_buffers\<close> are
  only logged.
\<close>

definition uvc_v4l2_release :: "'q uvc_ext \<Rightarrow> uvc_fh \<Rightarrow> 'q uvc_streaming \<Rightarrow> 'q uvc_streaming" where
  "uvc_v4l2_release ext handle stream =
     (let stream1 =
            (if uvc_has_privileges handle then
               (let sa = stream\<lparr>queue := snd (uvc_video_enable ext stream 0)\<rparr>;
                    sb = sa\<lparr>queue := snd (uvc_free_buffers ext (queue sa))\<rparr>
                in sb\<lparr>still_queue := snd (uvc_free_buffers ext (still_queue sb))\<rparr>)
             else stream)
      in snd (uvc_dismiss_privileges handle stream1))"



section \<open>One stream and its open files\<close>

text \<open>
  The stream with the handles opened against it: \<open>sys_files\<close> maps an open
  file to its \<open>private_data\<close>.  A call names the file it is made on; a call
  on a file that is not open cannot be made and leaves the system as it is, as
  does opening a file twice.
\<close>

record 'q uvc_system =
  sys_stream :: "'q uvc_streaming"
  sys_files :: "nat \<Rightarrow> uvc_fh option"

datatype call = Open nat | Acquire nat | Dismiss nat | Release nat

fun sys_call :: "'q uvc_ext \<Rightarrow> call \<Rightarrow> 'q uvc_system \<Rightarrow> 'q uvc_system" where
  "sys_call ext (Open f) s =
     (case sys_files s f of
        None \<Rightarrow> s\<lparr>sys_files := (sys_files s)(f \<mapsto> uvc_v4l2_open)\<rparr>
      | Some h \<Rightarrow> s)"
| "sys_call ext (Acquire f) s =
     (case sys_files s f of
        None \<Rightarrow> s
      | Some h \<Rightarrow>
          (let (ret, h', stream') = uvc_acquire_privileges h (sys_stream s)
           in s\<lparr>sys_stream := stream', sys_files := (sys_files s)(f \<mapsto> h')\<rparr>))"
| "sys_call ext (Dismiss f) s =
     (case sys_files s f of
        None \<Rightarrow> s
      | Some h \<Rightarrow>
          (let (h', stream') = uvc_dismiss_privileges h (sys_stream s)
           in s\<lparr>sys_stream := stream', sys_files := (sys_files s)(f \<mapsto> h')\<rparr>))"
| "sys_call ext (Release f) s =
     (case sys_files s f of
        None \<Rightarrow> s
      | Some h \<Rightarrow>
          s\<lparr>sys_stream := uvc_v4l2_release ext h (sys_stream s),
            sys_files := (sys_files s)(f := None)\<rparr>)"

fun sys_run :: "'q uvc_ext \<Rightarrow> call list \<Rightarrow> 'q uvc_system \<Rightarrow> 'q uvc_system" where
  "sys_run ext [] s = s"
| "sys_run ext (c # cs) s = sys_run ext cs (sys_call ext c s)"

text \<open>
  Modelled from the spec: the stream as uvc_driver.c creates it at device
  attach, which is not part of this file.  The counter is 0 and no file is
  open (the specification: the StreamState is created once at device-attach
  time, a Handle at open, and the counter is 0 or 1).
\<close>

definition sys_attach :: "'q uvc_streaming \<Rightarrow> 'q uvc_system" where
  "sys_attach stream = \<lparr>sys_stream = stream\<lparr>active := 0\<rparr>, sys_files = (\<lambda>f. None)\<rparr>"

definition is_active :: "'q uvc_system \<Rightarrow> nat \<Rightarrow> bool" where
  "is_active s f =
     (case sys_files s f of None \<Rightarrow> False | Some h \<Rightarrow> state h = UVC_HANDLE_ACTIVE)"

text \<open>
  The invariant of the privilege counter: it counts the active handles, and
  there is at most one.
\<close>

definition priv_inv :: "'q uvc_system \<Rightarrow> bool" where
  "priv_inv s \<longleftrightarrow>
     (active (sys_stream s) = 0 \<and> (\<forall>f. \<not> is_active s f)) \<or>
     (active (sys_stream s) = 1 \<and> (\<exists>f. is_active s f \<and> (\<forall>g. is_active s g \<longrightarrow> g = f)))"

section \<open>The overlap distance as the specification words it\<close>

text \<open>
  \<open>d = f.width * f.height + requestedWidth * requestedHeight
       - 2 * min(f.width, requestedWidth) * min(f.height, requestedHeight)\<close>
  over the integers.
\<close>

definition spec_overlap_distance :: "int \<Rightarrow> int \<Rightarrow> int \<Rightarrow> int \<Rightarrow> int" where
  "spec_overlap_distance w h rw rh = w * h + rw * rh - 2 * min w rw * min h rh"

definition overlap_distance :: "uvc_frame \<Rightarrow> u16 \<Rightarrow> u16 \<Rightarrow> int" where
  "overlap_distance f rw rh =
     spec_overlap_distance (uint (wWidth f)) (uint (wHeight f)) (uint rw) (uint rh)"

text \<open>
  The distance of a frame to the size a descriptor requests, the requested
  width and height being the 32-bit fields \<open>fmt->fmt.pix.width\<close> and
  \<open>fmt->fmt.pix.height\<close> as the caller wrote them.
\<close>

definition request_distance :: "uvc_frame \<Rightarrow> v4l2_format \<Rightarrow> int" where
  "request_distance f fmt =
     spec_overlap_distance (uint (wWidth f)) (uint (wHeight f))
       (uint (pix_width (pix fmt))) (uint (pix_height (pix fmt)))"

section \<open>An example device\<close>

text \<open>
  One format YUYV with the frames 640x480 (intervals 333333 and 500000) and
  1280x720 (interval 500000), and a still size 800x600.  A queue is the
  number of buffers it holds: queueing adds one, dequeueing takes one or
  answers \<open>-EAGAIN\<close> on an empty queue.  The device accepts every probe
  and reports a maximal frame size of 614400 bytes; \<open>example_reject\<close> is
  the same device refusing every probe with \<open>-EIO\<close>.
\<close>

definition frame_640x480 :: uvc_frame where
  "frame_640x480 =
     \<lparr>bFrameIndex = 1, wWidth = 640, wHeight = 480, bFrameIntervalType = 2,
      dwDefaultFrameInterval = 333333, dwFrameInterval = [333333, 500000]\<rparr>"

definition frame_1280x720 :: uvc_frame where
  "frame_1280x720 =
     \<lparr>bFrameIndex = 2, wWidth = 1280, wHeight = 720, bFrameIntervalType = 1,
      dwDefaultFrameInterval = 500000, dwFrameInterval = [500000]\<rparr>"

definition frame_stepwise :: uvc_frame where
  "frame_stepwise =
     \<lparr>bFrameIndex = 3, wWidth = 320, wHeight = 240, bFrameIntervalType = 0,
      dwDefaultFrameInterval = 333333, dwFrameInterval = [333333, 1000000, 1000]\<rparr>"

definition format_yuyv :: uvc_format where
  "format_yuyv =
     \<lparr>index = 1, bpp = 16, colorspace = 8, fcc = 0x56595559,
      frame = [frame_640x480, frame_1280x720],
      fmt_still_frame = [\<lparr>still_wWidth = 800, still_wHeight = 600\<rparr>]\<rparr>"

definition example_stream :: "nat uvc_streaming" where
  "example_stream =
     \<lparr>stream_type = 1, quirk_probe_extrafields = False, quirk_reduce_mem_usage = False,
      format = [format_yuyv], ctrl = zero_ctrl, cur_format = None, cur_frame = None,
      queue = 0, still_ctrl = zero_ctrl, still_format = None, still_frame = None,
      still_queue = 0, still_img_configed = False, still_decoding = False,
      still_waiting_frame = False, active = 0\<rparr>"

definition example_ext :: "nat uvc_ext" where
  "example_ext =
     \<lparr>uvc_probe_video = (\<lambda>s p. (0, p\<lparr>ctl_dwMaxVideoFrameSize := 614400\<rparr>)),
      uvc_probe_still = (\<lambda>s p. (0, p\<lparr>ctl_dwMaxVideoFrameSize := 960000\<rparr>)),
      uvc_trigger_still = (\<lambda>s. 0),
      uvc_video_enable = (\<lambda>s e. (0, queue s)),
      uvc_queue_allocated = (\<lambda>q. q \<noteq> 0),
      uvc_queue_streaming = (\<lambda>q. False),
      uvc_free_buffers = (\<lambda>q. (0, 0)),
      uvc_query_buffer = (\<lambda>q b. (0, b)),
      uvc_queue_buffer = (\<lambda>q b. (0, Suc q, b)),
      uvc_dequeue_buffer = (\<lambda>q b n. if q = 0 then (- 11, q, b) else (0, q - 1, b)),
      uvc_fraction_to_interval = (\<lambda>n d. if d = 0 then 0 else n * 10000000 div d),
      uvc_simplify_fraction = (\<lambda>x. x),
      IS_STILL_BUF = (\<lambda>b. buf_flags b = 0x5354494C)\<rparr>"

definition example_reject :: "nat uvc_ext" where
  "example_reject =
     example_ext\<lparr>uvc_probe_video := (\<lambda>s p. (- 5, p)), uvc_probe_still := (\<lambda>s p. (- 5, p))\<rparr>"

definition example_fmt :: v4l2_format where
  "example_fmt =
     \<lparr>fmt_type = 1,
      pix = \<lparr>pix_width = 700, pix_height = 480, pix_pixelformat = 0x56595559, pix_field = 0,
             pix_bytesperline = 0, pix_sizeimage = 0, pix_colorspace = 0, pix_priv = 0\<rparr>\<rparr>"

text \<open>
  The YUYV format with two frames of no area instead, 0x5 and 0x7, and the
  example stream offering that format.
\<close>

definition frame_0x5 :: uvc_frame where
  "frame_0x5 =
     \<lparr>bFrameIndex = 1, wWidth = 0, wHeight = 5, bFrameIntervalType = 1,
      dwDefaultFrameInterval = 333333, dwFrameInterval = [333333]\<rparr>"

definition frame_0x7 :: uvc_frame where
  "frame_0x7 =
     \<lparr>bFrameIndex = 2, wWidth = 0, wHeight = 7, bFrameIntervalType = 1,
      dwDefaultFrameInterval = 333333, dwFrameInterval = [333333]\<rparr>"

definition format_flat :: uvc_format where
  "format_flat = format_yuyv\<lparr>frame := [frame_0x5, frame_0x7]\<rparr>"

definition stream_flat :: "nat uvc_streaming" where
  "stream_flat = example_stream\<lparr>format := [format_flat]\<rparr>"



section \<open>The discrete frame intervals\<close>

lemma interval_loop_char:
  "n \<le> length fi \<Longrightarrow> i \<le> n \<Longrightarrow>
   \<exists>k. interval_loop fi n x i best = Inr k \<and> i \<le> k \<and> k \<le> n \<and>
       (\<forall>j. i \<le> j \<and> j < k \<longrightarrow>
            interval_dist x (fi ! j) \<le> (if j = i then best else interval_dist x (fi ! (j - 1)))) \<and>
       (k < n \<longrightarrow>
            interval_dist x (fi ! k) > (if k = i then best else interval_dist x (fi ! (k - 1))))"
proof (induction fi n x i best rule: interval_loop.induct)
  case (1 fi n x i best)
  show ?case
  proof (cases "i < n")
    case False
    with "1.prems" have "i = n" by simp
    then show ?thesis by (auto simp add: interval_loop.simps [of fi n x n])
  next
    case True
    then have r: "rd fi i = Inr (fi ! i)" using "1.prems" by (simp add: rd_def)
    let ?d = "interval_dist x (fi ! i)"
    show ?thesis
    proof (cases "?d > best")
      case True
      then show ?thesis using \<open>i < n\<close> r
        by (auto simp add: interval_loop.simps [of fi n x i])
    next
      case False
      from "1.IH" [OF \<open>i < n\<close> r refl False "1.prems"(1)] \<open>i < n\<close>
      obtain k where k: "interval_loop fi n x (Suc i) ?d = Inr k" "Suc i \<le> k" "k \<le> n"
        "\<forall>j. Suc i \<le> j \<and> j < k \<longrightarrow>
            interval_dist x (fi ! j) \<le> (if j = Suc i then ?d else interval_dist x (fi ! (j - 1)))"
        "k < n \<longrightarrow>
            interval_dist x (fi ! k) > (if k = Suc i then ?d else interval_dist x (fi ! (k - 1)))"
        by auto
      have eq: "interval_loop fi n x i best = Inr k"
        using \<open>i < n\<close> r False k(1) by (simp add: interval_loop.simps [of fi n x i])
      have a: "\<forall>j. i \<le> j \<and> j < k \<longrightarrow>
            interval_dist x (fi ! j) \<le> (if j = i then best else interval_dist x (fi ! (j - 1)))"
      proof (intro allI impI)
        fix j assume j: "i \<le> j \<and> j < k"
        show "interval_dist x (fi ! j) \<le> (if j = i then best else interval_dist x (fi ! (j - 1)))"
        proof (cases "j = i")
          case True then show ?thesis using False by simp
        next
          case False
          then have "Suc i \<le> j \<and> j < k" using j by simp
          with k(4) have "interval_dist x (fi ! j) \<le> (if j = Suc i then ?d else interval_dist x (fi ! (j - 1)))"
            by blast
          then show ?thesis using False by (auto split: if_splits)
        qed
      qed
      have b: "k < n \<longrightarrow>
            interval_dist x (fi ! k) > (if k = i then best else interval_dist x (fi ! (k - 1)))"
        using k(5) k(2) by (auto split: if_splits)
      show ?thesis using eq k(2,3) a b by auto
    qed
  qed
qed


lemma unat_interval_dist:
  "unat (interval_dist x v) = (if unat v < unat x then unat x - unat v else unat v - unat x)"
  by (simp add: interval_dist_def word_less_nat_alt unat_sub word_le_nat_alt)

lemma interval_dist_chain:
  "\<forall>j<k. interval_dist x (fi ! Suc j) \<le> interval_dist x (fi ! j) \<Longrightarrow> j \<le> k \<Longrightarrow>
   interval_dist x (fi ! k) \<le> interval_dist x (fi ! j)"
proof (induction k)
  case 0
  then show ?case by simp
next
  case (Suc k)
  show ?case
  proof (cases "j = Suc k")
    case True
    then show ?thesis by simp
  next
    case False
    with Suc.prems have "j \<le> k" by simp
    moreover have "\<forall>j<k. interval_dist x (fi ! Suc j) \<le> interval_dist x (fi ! j)"
      using Suc.prems(1) by simp
    ultimately have "interval_dist x (fi ! k) \<le> interval_dist x (fi ! j)"
      using Suc.IH by blast
    moreover have "interval_dist x (fi ! Suc k) \<le> interval_dist x (fi ! k)"
      using Suc.prems(1) by simp
    ultimately show ?thesis by simp
  qed
qed

lemma interval_dist_sorted_right:
  assumes up: "interval_dist x a < interval_dist x b" and ab: "a \<le> b" and bc: "b \<le> c"
  shows "interval_dist x a \<le> interval_dist x c"
  using assms
  by (simp add: word_less_nat_alt word_le_nat_alt unat_interval_dist split: if_splits)

lemma interval_scan:
  assumes ty: "bFrameIntervalType fr \<noteq> 0"
    and len: "unat (bFrameIntervalType fr) \<le> length (dwFrameInterval fr)"
  shows "(\<exists>k < unat (bFrameIntervalType fr).
            uvc_try_frame_interval fr interval = Inr (dwFrameInterval fr ! k) \<and>
            (\<forall>j<k. interval_dist interval (dwFrameInterval fr ! Suc j)
                      \<le> interval_dist interval (dwFrameInterval fr ! j)) \<and>
            (Suc k < unat (bFrameIntervalType fr) \<longrightarrow>
               interval_dist interval (dwFrameInterval fr ! k)
                 < interval_dist interval (dwFrameInterval fr ! Suc k)) \<and>
            (sorted (take (unat (bFrameIntervalType fr)) (dwFrameInterval fr)) \<longrightarrow>
               (\<forall>j < unat (bFrameIntervalType fr).
                  interval_dist interval (dwFrameInterval fr ! k)
                    \<le> interval_dist interval (dwFrameInterval fr ! j))))"
proof -
  let ?fi = "dwFrameInterval fr"
  let ?n = "unat (bFrameIntervalType fr)"
  let ?d = "\<lambda>j. interval_dist interval (?fi ! j)"
  have npos: "0 < ?n" using ty by (simp add: unat_gt_0)
  from interval_loop_char [OF len, of 0 interval "- 1"]
  obtain i where i: "interval_loop ?fi ?n interval 0 (- 1) = Inr i" "i \<le> ?n"
    and mono: "\<forall>j. 0 \<le> j \<and> j < i \<longrightarrow> ?d j \<le> (if j = 0 then - 1 else ?d (j - 1))"
    and stop: "i < ?n \<longrightarrow> ?d i > (if i = 0 then - 1 else ?d (i - 1))"
    by auto
  have ipos: "0 < i"
  proof (rule ccontr)
    assume "\<not> 0 < i"
    then have "i = 0" by simp
    with stop npos have "?d 0 > - 1" by simp
    then show False using word_n1_ge [of "?d 0"] by simp
  qed
  define k where "k = i - 1"
  have ik: "i = Suc k" using ipos by (simp add: k_def)
  have kn: "k < ?n" using i(2) ik by simp
  have "?n < 2 ^ 8" by (rule order_less_le_trans [OF unsigned_less]) simp
  then have i32: "i < 2 ^ 32" using i(2) by simp
  have "(word_of_nat i :: u32) - 1 = word_of_nat k" by (simp add: ik)
  moreover have "k < 2 ^ 32" using i32 ik by simp
  ultimately have idx: "unat ((word_of_nat i :: u32) - 1) = k"
    by (simp add: unat_of_nat)
  have res: "uvc_try_frame_interval fr interval = Inr (?fi ! k)"
    using ty i(1) idx kn len by (simp add: uvc_try_frame_interval_def rd_def)
  have m: "\<forall>j<k. ?d (Suc j) \<le> ?d j"
  proof (intro allI impI)
    fix j assume "j < k"
    then have "0 \<le> Suc j \<and> Suc j < i" using ik by simp
    with mono have "?d (Suc j) \<le> (if Suc j = 0 then - 1 else ?d (Suc j - 1))" by blast
    then show "?d (Suc j) \<le> ?d j" by simp
  qed
  have s: "Suc k < ?n \<longrightarrow> ?d k < ?d (Suc k)"
    using stop ik by simp
  have c: "sorted (take ?n ?fi) \<longrightarrow> (\<forall>j < ?n. ?d k \<le> ?d j)"
  proof (intro impI allI)
    fix j assume srt: "sorted (take ?n ?fi)" and jn: "j < ?n"
    have nth_mono: "\<And>a b. a \<le> b \<Longrightarrow> b < ?n \<Longrightarrow> ?fi ! a \<le> ?fi ! b"
    proof -
      fix a b assume ab: "a \<le> b" "b < ?n"
      then have "take ?n ?fi ! a \<le> take ?n ?fi ! b"
        using srt len by (simp add: sorted_iff_nth_mono)
      then show "?fi ! a \<le> ?fi ! b" using ab by simp
    qed
    show "?d k \<le> ?d j"
    proof (cases "j \<le> k")
      case True
      then show ?thesis using interval_dist_chain [OF m] by blast
    next
      case False
      then have kj: "Suc k \<le> j" by simp
      then have "Suc k < ?n" using jn by simp
      with s have up: "?d k < ?d (Suc k)" by blast
      have "?fi ! k \<le> ?fi ! Suc k" using nth_mono [of k "Suc k"] \<open>Suc k < ?n\<close> by simp
      moreover have "?fi ! Suc k \<le> ?fi ! j" using nth_mono [OF kj jn] .
      ultimately show ?thesis using interval_dist_sorted_right [OF up] by blast
    qed
  qed
  show "\<exists>k < ?n. uvc_try_frame_interval fr interval = Inr (?fi ! k) \<and>
            (\<forall>j<k. ?d (Suc j) \<le> ?d j) \<and> (Suc k < ?n \<longrightarrow> ?d k < ?d (Suc k)) \<and>
            (sorted (take ?n ?fi) \<longrightarrow> (\<forall>j < ?n. ?d k \<le> ?d j))"
    using kn res m s c by blast
qed

lemma uint_interval_dist:
  "uint (interval_dist interval v) = \<bar>uint interval - uint v\<bar>"
proof (cases "v < interval")
  case True
  then have "v \<le> interval" by simp
  then have "uint (interval - v) = uint interval - uint v" by (simp add: uint_sub_if' word_le_def)
  moreover have "uint v < uint interval" using True by (simp add: word_less_def)
  ultimately show ?thesis using True by (simp add: interval_dist_def)
next
  case False
  then have le: "interval \<le> v" by simp
  then have "uint (v - interval) = uint v - uint interval" by (simp add: uint_sub_if' word_le_def)
  moreover have "uint interval \<le> uint v" using le by (simp add: word_le_def)
  ultimately show ?thesis using False by (simp add: interval_dist_def)
qed

lemma interval_dist_le_abs:
  "interval_dist x a \<le> interval_dist x b \<longleftrightarrow> \<bar>uint x - uint a\<bar> \<le> \<bar>uint x - uint b\<bar>"
  by (simp only: word_le_def uint_interval_dist)

lemma interval_dist_less_abs:
  "interval_dist x a < interval_dist x b \<longleftrightarrow> \<bar>uint x - uint a\<bar> < \<bar>uint x - uint b\<bar>"
  by (simp only: word_less_def uint_interval_dist)

text \<open>
  Claim C5.  The distance the scan computes in 32 bits is the absolute
  difference of the requested interval and the entry, over the integers.  For a
  frame with discrete intervals (\<open>bFrameIntervalType\<close> is not 0) whose interval
  array holds at least \<open>bFrameIntervalType\<close> entries,
  \<open>uvc_try_frame_interval\<close> always returns an entry of the array, the one
  at some position \<open>k\<close>: the absolute distance to the requested interval does
  not increase along the positions up to \<open>k\<close>, and \<open>k\<close> is the last position
  or the distance at position \<open>k + 1\<close> is greater (the scan stops there and
  backs up one position).  When the array is sorted ascending, no entry is
  closer to the request.  Requesting 400000 from the intervals 333333 and
  500000 returns 333333.
\<close>

theorem uvc_try_frame_interval_discrete:
  assumes ty: "bFrameIntervalType fr \<noteq> 0"
    and len: "unat (bFrameIntervalType fr) \<le> length (dwFrameInterval fr)"
  shows "(\<exists>k < unat (bFrameIntervalType fr).
            uvc_try_frame_interval fr interval = Inr (dwFrameInterval fr ! k) \<and>
            (\<forall>j<k. \<bar>uint interval - uint (dwFrameInterval fr ! Suc j)\<bar>
                      \<le> \<bar>uint interval - uint (dwFrameInterval fr ! j)\<bar>) \<and>
            (Suc k < unat (bFrameIntervalType fr) \<longrightarrow>
               \<bar>uint interval - uint (dwFrameInterval fr ! k)\<bar>
                 < \<bar>uint interval - uint (dwFrameInterval fr ! Suc k)\<bar>) \<and>
            (sorted (take (unat (bFrameIntervalType fr)) (dwFrameInterval fr)) \<longrightarrow>
               (\<forall>j < unat (bFrameIntervalType fr).
                  \<bar>uint interval - uint (dwFrameInterval fr ! k)\<bar>
                    \<le> \<bar>uint interval - uint (dwFrameInterval fr ! j)\<bar>))) \<and>
         uint (interval_dist interval v) = \<bar>uint interval - uint v\<bar> \<and>
         uvc_try_frame_interval frame_640x480 400000 = Inr 333333"
proof (intro conjI)
  show "\<exists>k < unat (bFrameIntervalType fr).
            uvc_try_frame_interval fr interval = Inr (dwFrameInterval fr ! k) \<and>
            (\<forall>j<k. \<bar>uint interval - uint (dwFrameInterval fr ! Suc j)\<bar>
                      \<le> \<bar>uint interval - uint (dwFrameInterval fr ! j)\<bar>) \<and>
            (Suc k < unat (bFrameIntervalType fr) \<longrightarrow>
               \<bar>uint interval - uint (dwFrameInterval fr ! k)\<bar>
                 < \<bar>uint interval - uint (dwFrameInterval fr ! Suc k)\<bar>) \<and>
            (sorted (take (unat (bFrameIntervalType fr)) (dwFrameInterval fr)) \<longrightarrow>
               (\<forall>j < unat (bFrameIntervalType fr).
                  \<bar>uint interval - uint (dwFrameInterval fr ! k)\<bar>
                    \<le> \<bar>uint interval - uint (dwFrameInterval fr ! j)\<bar>))"
    using interval_scan [OF ty len, of interval]
    by (simp only: interval_dist_le_abs interval_dist_less_abs)
  show "uint (interval_dist interval v) = \<bar>uint interval - uint v\<bar>"
    by (rule uint_interval_dist)
  show "uvc_try_frame_interval frame_640x480 400000 = Inr 333333"
    by (simp add: uvc_try_frame_interval_def frame_640x480_def interval_loop.simps rd_def
        interval_dist_def)
qed

theorem uvc_try_frame_interval_discrete_witness:
  "bFrameIntervalType frame_640x480 \<noteq> 0 \<and>
   unat (bFrameIntervalType frame_640x480) \<le> length (dwFrameInterval frame_640x480) \<and>
   sorted (take (unat (bFrameIntervalType frame_640x480)) (dwFrameInterval frame_640x480)) \<and>
   uvc_try_frame_interval frame_640x480 420000 = Inr 500000 \<and>
   uvc_try_frame_interval frame_640x480 500000 = Inr 500000 \<and>
   uvc_try_frame_interval frame_640x480 333333 = Inr 333333 \<and>
   uint (interval_dist 400000 333333) = 66667 \<and>
   uint (interval_dist 400000 500000) = 100000 \<and>
   (\<exists>k < unat (bFrameIntervalType frame_640x480).
      uvc_try_frame_interval frame_640x480 420000 = Inr (dwFrameInterval frame_640x480 ! k) \<and>
      (\<forall>j<k. \<bar>uint (420000 :: u32) - uint (dwFrameInterval frame_640x480 ! Suc j)\<bar>
                \<le> \<bar>uint (420000 :: u32) - uint (dwFrameInterval frame_640x480 ! j)\<bar>) \<and>
      (Suc k < unat (bFrameIntervalType frame_640x480) \<longrightarrow>
         \<bar>uint (420000 :: u32) - uint (dwFrameInterval frame_640x480 ! k)\<bar>
           < \<bar>uint (420000 :: u32) - uint (dwFrameInterval frame_640x480 ! Suc k)\<bar>) \<and>
      (\<forall>j < unat (bFrameIntervalType frame_640x480).
         \<bar>uint (420000 :: u32) - uint (dwFrameInterval frame_640x480 ! k)\<bar>
           \<le> \<bar>uint (420000 :: u32) - uint (dwFrameInterval frame_640x480 ! j)\<bar>))"
proof -
  have h1: "bFrameIntervalType frame_640x480 \<noteq> 0"
    by (simp add: frame_640x480_def)
  have h2: "unat (bFrameIntervalType frame_640x480) \<le> length (dwFrameInterval frame_640x480)"
    by (simp add: frame_640x480_def)
  have h3: "sorted (take (unat (bFrameIntervalType frame_640x480)) (dwFrameInterval frame_640x480))"
    by (simp add: frame_640x480_def)
  have e1: "uvc_try_frame_interval frame_640x480 420000 = Inr 500000"
    by (simp add: uvc_try_frame_interval_def frame_640x480_def interval_loop.simps rd_def
        interval_dist_def)
  have e2: "uvc_try_frame_interval frame_640x480 500000 = Inr 500000"
    by (simp add: uvc_try_frame_interval_def frame_640x480_def interval_loop.simps rd_def
        interval_dist_def)
  have e3: "uvc_try_frame_interval frame_640x480 333333 = Inr 333333"
    by (simp add: uvc_try_frame_interval_def frame_640x480_def interval_loop.simps rd_def
        interval_dist_def)
  note t = uvc_try_frame_interval_discrete [OF h1 h2, of 420000]
  have d1: "uint (interval_dist 400000 333333) = 66667"
    using uvc_try_frame_interval_discrete [OF h1 h2, of 400000 333333, THEN conjunct2,
        THEN conjunct1]
    by simp
  have d2: "uint (interval_dist 400000 500000) = 100000"
    using uvc_try_frame_interval_discrete [OF h1 h2, of 400000 500000, THEN conjunct2,
        THEN conjunct1]
    by simp
  from t h3 have ex: "\<exists>k < unat (bFrameIntervalType frame_640x480).
      uvc_try_frame_interval frame_640x480 420000 = Inr (dwFrameInterval frame_640x480 ! k) \<and>
      (\<forall>j<k. \<bar>uint (420000 :: u32) - uint (dwFrameInterval frame_640x480 ! Suc j)\<bar>
                \<le> \<bar>uint (420000 :: u32) - uint (dwFrameInterval frame_640x480 ! j)\<bar>) \<and>
      (Suc k < unat (bFrameIntervalType frame_640x480) \<longrightarrow>
         \<bar>uint (420000 :: u32) - uint (dwFrameInterval frame_640x480 ! k)\<bar>
           < \<bar>uint (420000 :: u32) - uint (dwFrameInterval frame_640x480 ! Suc k)\<bar>) \<and>
      (\<forall>j < unat (bFrameIntervalType frame_640x480).
         \<bar>uint (420000 :: u32) - uint (dwFrameInterval frame_640x480 ! k)\<bar>
           \<le> \<bar>uint (420000 :: u32) - uint (dwFrameInterval frame_640x480 ! j)\<bar>)"
    by blast
  show ?thesis by (intro conjI h1 h2 h3 e1 e2 e3 d1 d2 ex)
qed

section \<open>The stepwise frame intervals\<close>

text \<open>
  What the stepwise branch does for a request that is not below the minimum
  and for which \<open>interval + step/2\<close> does not wrap: the result lies between
  the minimum and the maximum, and it is the maximum or the minimum plus a
  multiple of the step.
\<close>

lemma unat_add_u32: "unat a + unat b < 2 ^ 32 \<Longrightarrow> unat (a + b :: u32) = unat a + unat b"
  by (simp add: unat_word_ariths)

lemma unat_mult_u32: "unat a * unat b < 2 ^ 32 \<Longrightarrow> unat (a * b :: u32) = unat a * unat b"
  by (simp add: unat_word_ariths)

lemma stepwise_in_range:
  assumes ty: "bFrameIntervalType fr = 0"
    and fi: "dwFrameInterval fr = [fmin, fmax, step]"
    and st: "step \<noteq> 0" and mm: "fmin \<le> fmax"
    and lo: "fmin \<le> interval" and hi: "unat interval + unat step div 2 < 2 ^ 32"
  shows "\<exists>r. uvc_try_frame_interval fr interval = Inr r \<and> fmin \<le> r \<and> r \<le> fmax \<and>
             (r = fmax \<or> (\<exists>k. unat r = unat fmin + k * unat step))"
proof -
  let ?a = "interval - fmin + step div 2"
  let ?q = "?a div step"
  have ua: "unat ?a = unat interval - unat fmin + unat step div 2"
  proof -
    have "unat (interval - fmin) = unat interval - unat fmin" using lo by (simp add: unat_sub)
    moreover have "unat (step div 2) = unat step div 2" by (simp add: unat_div)
    moreover have "unat interval - unat fmin + unat step div 2 < 2 ^ 32" using hi by simp
    ultimately show ?thesis by (simp add: unat_add_u32)
  qed
  have uq: "unat ?q = unat ?a div unat step" by (simp add: unat_div)
  have le: "unat ?q * unat step \<le> unat ?a" by (simp add: uq)
  moreover have "unat ?a < 2 ^ 32" by (rule order_less_le_trans [OF unsigned_less]) simp
  ultimately have "unat ?q * unat step < 2 ^ 32" by simp
  then have um: "unat (?q * step) = unat ?q * unat step"
    by (rule unat_mult_u32)
  have "unat fmin + unat ?q * unat step \<le> unat interval + unat step div 2"
    using le ua lo by (simp add: word_le_nat_alt)
  then have "unat fmin + unat (?q * step) < 2 ^ 32" using hi um by simp
  then have us: "unat (fmin + ?q * step) = unat fmin + unat ?q * unat step"
    using um by (simp add: unat_add_u32)
  have ge: "fmin \<le> fmin + ?q * step" using us by (simp add: word_le_nat_alt)
  show ?thesis
    using ty fi st mm ge us
    by (auto simp: uvc_try_frame_interval_def rd_def Let_def not_less)
qed

text \<open>
  Claim C6.  The claim is that the stepwise result lies within the minimum and
  the maximum for every requested 32-bit value, also below the minimum.  For
  the frame with minimum 333333, maximum 1000000 and step 1000, and the request
  10000, \<open>interval - min\<close> wraps and the function returns 10037, which is
  below the minimum.
\<close>

theorem uvc_try_frame_interval_stepwise_below_min:
  "uvc_try_frame_interval frame_stepwise 10000 = Inr 10037 \<and>
   rd (dwFrameInterval frame_stepwise) 0 = Inr 333333 \<and>
   (10037 :: u32) < 333333"
  by (simp add: uvc_try_frame_interval_def frame_stepwise_def rd_def)

section \<open>The privilege counter\<close>

lemma stream_active_same [simp]: "stream\<lparr>active := active stream\<rparr> = stream"
  by simp

lemma acquire_active:
  "state h = UVC_HANDLE_ACTIVE \<Longrightarrow> uvc_acquire_privileges h stream = (0, h, stream)"
  by (simp add: uvc_acquire_privileges_def)

lemma acquire_busy:
  "state h = UVC_HANDLE_PASSIVE \<Longrightarrow> active stream = 1 \<Longrightarrow>
   uvc_acquire_privileges h stream = (- EBUSY, h, stream)"
  by (simp add: uvc_acquire_privileges_def atomic_inc_return_def atomic_dec_def)

lemma acquire_free:
  "state h = UVC_HANDLE_PASSIVE \<Longrightarrow> active stream = 0 \<Longrightarrow>
   uvc_acquire_privileges h stream =
     (0, h\<lparr>state := UVC_HANDLE_ACTIVE\<rparr>, stream\<lparr>active := 1\<rparr>)"
  by (simp add: uvc_acquire_privileges_def atomic_inc_return_def)

lemma release_active:
  "active (uvc_v4l2_release ext h stream) =
     (if state h = UVC_HANDLE_ACTIVE then active stream - 1 else active stream)"
  by (simp add: uvc_v4l2_release_def uvc_dismiss_privileges_def uvc_has_privileges_def
      atomic_dec_def Let_def)

lemma is_active_upd:
  "is_active (s\<lparr>sys_stream := x, sys_files := (sys_files s)(f \<mapsto> h)\<rparr>) g =
     (if g = f then state h = UVC_HANDLE_ACTIVE else is_active s g)"
  by (simp add: is_active_def)

lemma is_active_del:
  "is_active (s\<lparr>sys_stream := x, sys_files := (sys_files s)(f := None)\<rparr>) g =
     (if g = f then False else is_active s g)"
  by (simp add: is_active_def)

lemma is_active_new:
  "is_active (s\<lparr>sys_files := (sys_files s)(f \<mapsto> h)\<rparr>) g =
     (if g = f then state h = UVC_HANDLE_ACTIVE else is_active s g)"
  by (simp add: is_active_def)

lemma priv_inv_attach: "priv_inv (sys_attach stream)"
  by (simp add: priv_inv_def sys_attach_def is_active_def)

lemma priv_inv_free:
  "active (sys_stream s) = 0 \<Longrightarrow> \<forall>g. \<not> is_active s g \<Longrightarrow> priv_inv s"
  by (simp add: priv_inv_def)

lemma priv_inv_held:
  "active (sys_stream s) = 1 \<Longrightarrow> is_active s f \<Longrightarrow> \<forall>g. is_active s g \<longrightarrow> g = f \<Longrightarrow>
   priv_inv s"
  unfolding priv_inv_def by blast

lemma priv_inv_cases:
  assumes "priv_inv s"
  obtains (free) "active (sys_stream s) = 0" "\<forall>g. \<not> is_active s g"
  | (held) f where "active (sys_stream s) = 1" "is_active s f" "\<forall>g. is_active s g \<longrightarrow> g = f"
  using assms unfolding priv_inv_def by blast


lemma priv_inv_open: "priv_inv s \<Longrightarrow> priv_inv (sys_call ext (Open f) s)"
proof (cases "sys_files s f")
  case (Some h)
  assume "priv_inv s"
  then show ?thesis using Some by simp
next
  case None
  assume inv: "priv_inv s"
  have na: "\<not> is_active s f" using None by (simp add: is_active_def)
  let ?s = "s\<lparr>sys_files := (sys_files s)(f \<mapsto> uvc_v4l2_open)\<rparr>"
  have ia: "\<And>g. is_active ?s g = is_active s g"
    using na by (simp add: is_active_new uvc_v4l2_open_def)
  have st: "sys_stream ?s = sys_stream s" by simp
  have "priv_inv ?s" using inv unfolding priv_inv_def ia st .
  then show ?thesis using None by simp
qed

lemma priv_inv_acquire: "priv_inv s \<Longrightarrow> priv_inv (sys_call ext (Acquire f) s)"
proof (cases "sys_files s f")
  case None
  assume "priv_inv s"
  then show ?thesis using None by simp
next
  case (Some h)
  assume inv: "priv_inv s"
  show ?thesis
  proof (cases "state h")
    case UVC_HANDLE_ACTIVE
    then have "sys_call ext (Acquire f) s = s"
      using Some by (simp add: acquire_active fun_upd_idem)
    then show ?thesis using inv by simp
  next
    case UVC_HANDLE_PASSIVE
    from inv show ?thesis
    proof (cases rule: priv_inv_cases)
      case free
      let ?s = "s\<lparr>sys_stream := (sys_stream s)\<lparr>active := 1\<rparr>,
                sys_files := (sys_files s)(f \<mapsto> h\<lparr>state := UVC_HANDLE_ACTIVE\<rparr>)\<rparr>"
      have eq: "sys_call ext (Acquire f) s = ?s"
        using Some UVC_HANDLE_PASSIVE free(1) by (simp add: acquire_free)
      have "active (sys_stream ?s) = 1" by simp
      moreover have "is_active ?s f" by (simp add: is_active_upd)
      moreover have "\<forall>g. is_active ?s g \<longrightarrow> g = f"
        using free(2) by (simp add: is_active_upd)
      ultimately have "priv_inv ?s" by (rule priv_inv_held)
      then show ?thesis using eq by simp
    next
      case (held g)
      then have "sys_call ext (Acquire f) s = s"
        using Some UVC_HANDLE_PASSIVE by (simp add: acquire_busy fun_upd_idem)
      then show ?thesis using inv by simp
    qed
  qed
qed

lemma priv_inv_dismiss: "priv_inv s \<Longrightarrow> priv_inv (sys_call ext (Dismiss f) s)"
proof (cases "sys_files s f")
  case None
  assume "priv_inv s"
  then show ?thesis using None by simp
next
  case (Some h)
  assume inv: "priv_inv s"
  show ?thesis
  proof (cases "state h")
    case UVC_HANDLE_PASSIVE
    then have "h\<lparr>state := UVC_HANDLE_PASSIVE\<rparr> = h" by simp
    then have "sys_call ext (Dismiss f) s = s"
      using Some UVC_HANDLE_PASSIVE
      by (simp add: uvc_dismiss_privileges_def fun_upd_idem)
    then show ?thesis using inv by simp
  next
    case UVC_HANDLE_ACTIVE
    then have act: "is_active s f" using Some by (simp add: is_active_def)
    from inv have a1: "active (sys_stream s) = 1" and uniq: "\<forall>g. is_active s g \<longrightarrow> g = f"
      using act by (cases rule: priv_inv_cases; blast)+
    let ?s = "s\<lparr>sys_stream := (sys_stream s)\<lparr>active := 0\<rparr>,
                sys_files := (sys_files s)(f \<mapsto> h\<lparr>state := UVC_HANDLE_PASSIVE\<rparr>)\<rparr>"
    have eq: "sys_call ext (Dismiss f) s = ?s"
      using Some UVC_HANDLE_ACTIVE a1
      by (simp add: uvc_dismiss_privileges_def atomic_dec_def)
    have "active (sys_stream ?s) = 0" by simp
    moreover have "\<forall>g. \<not> is_active ?s g"
      using uniq by (auto simp add: is_active_upd)
    ultimately have "priv_inv ?s" by (rule priv_inv_free)
    then show ?thesis using eq by simp
  qed
qed

lemma priv_inv_release: "priv_inv s \<Longrightarrow> priv_inv (sys_call ext (Release f) s)"
proof (cases "sys_files s f")
  case None
  assume "priv_inv s"
  then show ?thesis using None by simp
next
  case (Some h)
  assume inv: "priv_inv s"
  let ?s = "s\<lparr>sys_stream := uvc_v4l2_release ext h (sys_stream s),
                sys_files := (sys_files s)(f := None)\<rparr>"
  have eq: "sys_call ext (Release f) s = ?s"
    using Some by simp
  have st: "active (sys_stream ?s) =
      (if state h = UVC_HANDLE_ACTIVE then active (sys_stream s) - 1 else active (sys_stream s))"
    by (simp add: release_active)
  have "priv_inv ?s"
  proof (cases "state h")
    case UVC_HANDLE_PASSIVE
    then have na: "\<not> is_active s f" using Some by (simp add: is_active_def)
    have a: "active (sys_stream ?s) = active (sys_stream s)"
      using st UVC_HANDLE_PASSIVE by simp
    have ia: "\<And>g. is_active ?s g = is_active s g"
      using na by (simp add: is_active_del)
    show ?thesis using inv unfolding priv_inv_def ia a .
  next
    case UVC_HANDLE_ACTIVE
    then have act: "is_active s f" using Some by (simp add: is_active_def)
    from inv have a1: "active (sys_stream s) = 1" and uniq: "\<forall>g. is_active s g \<longrightarrow> g = f"
      using act by (cases rule: priv_inv_cases; blast)+
    have "active (sys_stream ?s) = 0" using st UVC_HANDLE_ACTIVE a1 by simp
    moreover have "\<forall>g. \<not> is_active ?s g"
      using uniq by (auto simp add: is_active_del)
    ultimately show ?thesis by (rule priv_inv_free)
  qed
  then show ?thesis using eq by simp
qed

lemma priv_inv_call: "priv_inv s \<Longrightarrow> priv_inv (sys_call ext c s)"
  by (cases c) (simp_all only: priv_inv_open priv_inv_acquire priv_inv_dismiss priv_inv_release)

lemma priv_inv_run: "priv_inv s \<Longrightarrow> priv_inv (sys_run ext cs s)"
  by (induction cs arbitrary: s) (simp_all add: priv_inv_call)


lemma priv_inv_reachable: "priv_inv (sys_run ext calls (sys_attach stream))"
  by (rule priv_inv_run [OF priv_inv_attach])

lemma priv_inv_counter: "priv_inv s \<Longrightarrow> active (sys_stream s) = 0 \<or> active (sys_stream s) = 1"
  unfolding priv_inv_def by blast

lemma priv_inv_unique: "priv_inv s \<Longrightarrow> is_active s f \<Longrightarrow> is_active s g \<Longrightarrow> f = g"
  unfolding priv_inv_def by blast

lemma priv_inv_active_one: "priv_inv s \<Longrightarrow> is_active s g \<Longrightarrow> active (sys_stream s) = 1"
  unfolding priv_inv_def by blast

lemma priv_inv_none_zero: "priv_inv s \<Longrightarrow> \<forall>g. \<not> is_active s g \<Longrightarrow> active (sys_stream s) = 0"
  unfolding priv_inv_def by blast


text \<open>
  Claim C1.  After any sequence of open, acquire, dismiss and release calls on
  a stream that starts at device attach, the counter \<open>active\<close> is 0 or 1
  and at most one handle is active.  In every such state
  \<open>uvc_acquire_privileges\<close> on an active handle returns 0 and changes
  nothing; on a passive handle while another handle is active it returns
  \<open>-EBUSY\<close>, the counter is back at its value (the increment is undone)
  and the handle stays passive; on a passive handle while no handle is active
  it returns 0, the handle becomes active and the counter is 1.
\<close>

theorem privilege_exclusive:
  assumes s: "s = sys_run ext calls (sys_attach stream)"
  shows "(active (sys_stream s) = 0 \<or> active (sys_stream s) = 1) \<and>
         (\<forall>f g. is_active s f \<and> is_active s g \<longrightarrow> f = g) \<and>
         (\<forall>f h. sys_files s f = Some h \<and> state h = UVC_HANDLE_ACTIVE \<longrightarrow>
            uvc_acquire_privileges h (sys_stream s) = (0, h, sys_stream s)) \<and>
         (\<forall>f h g. sys_files s f = Some h \<and> state h = UVC_HANDLE_PASSIVE \<and> is_active s g \<longrightarrow>
            uvc_acquire_privileges h (sys_stream s) = (- EBUSY, h, sys_stream s)) \<and>
         (\<forall>f h. sys_files s f = Some h \<and> state h = UVC_HANDLE_PASSIVE \<and>
                (\<forall>g. \<not> is_active s g) \<longrightarrow>
            uvc_acquire_privileges h (sys_stream s) =
              (0, h\<lparr>state := UVC_HANDLE_ACTIVE\<rparr>, (sys_stream s)\<lparr>active := 1\<rparr>))"
proof -
  have inv: "priv_inv s" unfolding s by (rule priv_inv_reachable)
  have c1: "active (sys_stream s) = 0 \<or> active (sys_stream s) = 1"
    by (rule priv_inv_counter [OF inv])
  have c2: "\<forall>f g. is_active s f \<and> is_active s g \<longrightarrow> f = g"
  proof (intro allI impI, elim conjE)
    fix f g assume "is_active s f" "is_active s g"
    then show "f = g" by (rule priv_inv_unique [OF inv])
  qed
  have c3: "\<forall>f h. sys_files s f = Some h \<and> state h = UVC_HANDLE_ACTIVE \<longrightarrow>
            uvc_acquire_privileges h (sys_stream s) = (0, h, sys_stream s)"
    by (simp add: acquire_active)
  have c4: "\<forall>f h g. sys_files s f = Some h \<and> state h = UVC_HANDLE_PASSIVE \<and> is_active s g \<longrightarrow>
            uvc_acquire_privileges h (sys_stream s) = (- EBUSY, h, sys_stream s)"
  proof (intro allI impI, elim conjE)
    fix f g :: nat and h :: uvc_fh
    assume p: "state h = UVC_HANDLE_PASSIVE" and g: "is_active s g"
    have "active (sys_stream s) = 1" by (rule priv_inv_active_one [OF inv g])
    with p show "uvc_acquire_privileges h (sys_stream s) = (- EBUSY, h, sys_stream s)"
      by (rule acquire_busy)
  qed
  have c5: "\<forall>f h. sys_files s f = Some h \<and> state h = UVC_HANDLE_PASSIVE \<and>
                (\<forall>g. \<not> is_active s g) \<longrightarrow>
            uvc_acquire_privileges h (sys_stream s) =
              (0, h\<lparr>state := UVC_HANDLE_ACTIVE\<rparr>, (sys_stream s)\<lparr>active := 1\<rparr>)"
  proof (intro allI impI, elim conjE)
    fix f :: nat and h :: uvc_fh
    assume p: "state h = UVC_HANDLE_PASSIVE" and g: "\<forall>g. \<not> is_active s g"
    have "active (sys_stream s) = 0" by (rule priv_inv_none_zero [OF inv g])
    with p show "uvc_acquire_privileges h (sys_stream s) =
              (0, h\<lparr>state := UVC_HANDLE_ACTIVE\<rparr>, (sys_stream s)\<lparr>active := 1\<rparr>)"
      by (rule acquire_free)
  qed
  show ?thesis by (intro conjI) (rule c1 c2 c3 c4 c5)+
qed

lemma example_run:
  "sys_run example_ext [Open 0, Open 1, Acquire 0, Acquire 1] (sys_attach example_stream) =
     \<lparr>sys_stream = example_stream\<lparr>active := 1\<rparr>,
      sys_files = (\<lambda>f. None)(0 \<mapsto> \<lparr>state = UVC_HANDLE_ACTIVE\<rparr>, 1 \<mapsto> \<lparr>state = UVC_HANDLE_PASSIVE\<rparr>)\<rparr>"
  by (simp add: sys_attach_def uvc_v4l2_open_def uvc_acquire_privileges_def
      atomic_inc_return_def atomic_dec_def example_stream_def)

theorem privilege_exclusive_witness:
  "is_active (sys_run example_ext [Open 0, Open 1, Acquire 0, Acquire 1]
                (sys_attach example_stream)) 0 \<and>
   sys_files (sys_run example_ext [Open 0, Open 1, Acquire 0, Acquire 1]
                (sys_attach example_stream)) 1 = Some \<lparr>state = UVC_HANDLE_PASSIVE\<rparr> \<and>
   active (sys_stream (sys_run example_ext [Open 0, Open 1, Acquire 0, Acquire 1]
                (sys_attach example_stream))) = 1 \<and>
   uvc_acquire_privileges \<lparr>state = UVC_HANDLE_PASSIVE\<rparr>
       (sys_stream (sys_run example_ext [Open 0, Open 1, Acquire 0, Acquire 1]
                (sys_attach example_stream))) =
     (- EBUSY, \<lparr>state = UVC_HANDLE_PASSIVE\<rparr>,
      sys_stream (sys_run example_ext [Open 0, Open 1, Acquire 0, Acquire 1]
                (sys_attach example_stream)))"
proof -
  let ?s = "sys_run example_ext [Open 0, Open 1, Acquire 0, Acquire 1]
              (sys_attach example_stream)"
  have a: "is_active ?s 0" by (simp only: example_run) (simp add: is_active_def)
  have b: "sys_files ?s 1 = Some \<lparr>state = UVC_HANDLE_PASSIVE\<rparr>"
    by (simp only: example_run) simp
  have c: "active (sys_stream ?s) = 1" by (simp only: example_run) simp
  have d: "state \<lparr>state = UVC_HANDLE_PASSIVE\<rparr> = UVC_HANDLE_PASSIVE" by simp
  from privilege_exclusive [OF refl, of example_ext "[Open 0, Open 1, Acquire 0, Acquire 1]"
      example_stream] a b d
  have "uvc_acquire_privileges \<lparr>state = UVC_HANDLE_PASSIVE\<rparr> (sys_stream ?s) =
     (- EBUSY, \<lparr>state = UVC_HANDLE_PASSIVE\<rparr>, sys_stream ?s)"
    by blast
  with a b c show ?thesis by (intro conjI)
qed

text \<open>
  Claim C7.  In a state reached from device attach, \<open>uvc_v4l2_release\<close> on
  an open file, whatever the state of its handle, removes the handle and
  leaves the counter at the value \<open>uvc_dismiss_privileges\<close> gives for that
  handle: 0 if the handle was active, unchanged if it was passive.  The counter
  then agrees with the handles that remain: it is 0 and none is active, or it
  is 1 and another handle is active.  When the released handle was the active
  one, every other handle whose \<open>uvc_acquire_privileges\<close> returned
  \<open>-EBUSY\<close> before the release now acquires the privilege: the call returns
  0, the handle becomes active and the counter is 1.
\<close>

theorem release_dismisses_privileges:
  assumes s: "s = sys_run ext calls (sys_attach stream)"
    and h: "sys_files s f = Some h"
    and s': "s' = sys_call ext (Release f) s"
  shows "sys_files s' f = None \<and>
         (\<forall>g. g \<noteq> f \<longrightarrow> sys_files s' g = sys_files s g) \<and>
         active (sys_stream s') = active (snd (uvc_dismiss_privileges h (sys_stream s))) \<and>
         active (sys_stream s') =
           (if state h = UVC_HANDLE_ACTIVE then 0 else active (sys_stream s)) \<and>
         (active (sys_stream s') = 0 \<and> (\<forall>g. \<not> is_active s' g) \<or>
          active (sys_stream s') = 1 \<and> (\<exists>g. g \<noteq> f \<and> is_active s' g)) \<and>
         (\<forall>g hg. g \<noteq> f \<and> sys_files s g = Some hg \<and> state h = UVC_HANDLE_ACTIVE \<and>
                 fst (uvc_acquire_privileges hg (sys_stream s)) = - EBUSY \<longrightarrow>
            sys_files s' g = Some hg \<and>
            uvc_acquire_privileges hg (sys_stream s') =
              (0, hg\<lparr>state := UVC_HANDLE_ACTIVE\<rparr>, (sys_stream s')\<lparr>active := 1\<rparr>))"
proof -
  have inv: "priv_inv s" unfolding s by (rule priv_inv_reachable)
  have inv': "priv_inv s'" unfolding s' by (rule priv_inv_release [OF inv])
  have eq: "s' = s\<lparr>sys_stream := uvc_v4l2_release ext h (sys_stream s),
                   sys_files := (sys_files s)(f := None)\<rparr>"
    using h s' by simp
  have c1: "sys_files s' f = None" by (simp add: eq)
  have c2: "\<forall>g. g \<noteq> f \<longrightarrow> sys_files s' g = sys_files s g" by (simp add: eq)
  have c3: "active (sys_stream s') = active (snd (uvc_dismiss_privileges h (sys_stream s)))"
    by (simp add: eq release_active uvc_dismiss_privileges_def atomic_dec_def)
  have act: "state h = UVC_HANDLE_ACTIVE \<Longrightarrow> active (sys_stream s) = 1"
    using priv_inv_active_one [OF inv, of f] h by (simp add: is_active_def)
  have c4: "active (sys_stream s') =
           (if state h = UVC_HANDLE_ACTIVE then 0 else active (sys_stream s))"
    using act by (simp add: eq release_active)
  have nf: "\<not> is_active s' f" using c1 by (simp add: is_active_def)
  have c5: "active (sys_stream s') = 0 \<and> (\<forall>g. \<not> is_active s' g) \<or>
          active (sys_stream s') = 1 \<and> (\<exists>g. g \<noteq> f \<and> is_active s' g)"
    using inv'
  proof (cases rule: priv_inv_cases)
    case free
    have "active (sys_stream s') = 0 \<and> (\<forall>g. \<not> is_active s' g)"
      by (intro conjI) (rule free)+
    then show ?thesis by (rule disjI1)
  next
    case (held g)
    have gf: "g \<noteq> f"
    proof
      assume "g = f"
      with held(2) nf show False by simp
    qed
    have "\<exists>g. g \<noteq> f \<and> is_active s' g"
      by (rule exI [of _ g]) (intro conjI gf held(2))
    with held(1) have "active (sys_stream s') = 1 \<and> (\<exists>g. g \<noteq> f \<and> is_active s' g)"
      by (intro conjI)
    then show ?thesis by (rule disjI2)
  qed
  have c6: "\<forall>g hg. g \<noteq> f \<and> sys_files s g = Some hg \<and> state h = UVC_HANDLE_ACTIVE \<and>
                 fst (uvc_acquire_privileges hg (sys_stream s)) = - EBUSY \<longrightarrow>
            sys_files s' g = Some hg \<and>
            uvc_acquire_privileges hg (sys_stream s') =
              (0, hg\<lparr>state := UVC_HANDLE_ACTIVE\<rparr>, (sys_stream s')\<lparr>active := 1\<rparr>)"
  proof (intro allI impI, elim conjE)
    fix g :: nat and hg :: uvc_fh
    assume gf: "g \<noteq> f" and hg: "sys_files s g = Some hg"
      and ha: "state h = UVC_HANDLE_ACTIVE"
      and busy: "fst (uvc_acquire_privileges hg (sys_stream s)) = - EBUSY"
    have "state hg \<noteq> UVC_HANDLE_ACTIVE"
    proof
      assume "state hg = UVC_HANDLE_ACTIVE"
      then have "fst (uvc_acquire_privileges hg (sys_stream s)) = 0"
        by (simp add: acquire_active)
      with busy show False by (simp add: EBUSY_def)
    qed
    then have p: "state hg = UVC_HANDLE_PASSIVE" by (cases "state hg") simp_all
    have z: "active (sys_stream s') = 0" using c4 ha by simp
    show "sys_files s' g = Some hg \<and>
            uvc_acquire_privileges hg (sys_stream s') =
              (0, hg\<lparr>state := UVC_HANDLE_ACTIVE\<rparr>, (sys_stream s')\<lparr>active := 1\<rparr>)"
      using c2 gf hg acquire_free [OF p z] by simp
  qed
  show ?thesis by (intro conjI) (rule c1 c2 c3 c4 c5 c6)+
qed

lemmas example_run_defs =
  sys_attach_def uvc_v4l2_open_def uvc_acquire_privileges_def atomic_inc_return_def
  atomic_dec_def example_stream_def

theorem release_dismisses_privileges_witness:
  "sys_files (sys_run example_ext [Open 0, Open 1, Acquire 0] (sys_attach example_stream)) 0
     = Some \<lparr>state = UVC_HANDLE_ACTIVE\<rparr> \<and>
   sys_files (sys_run example_ext [Open 0, Open 1, Acquire 0] (sys_attach example_stream)) 1
     = Some \<lparr>state = UVC_HANDLE_PASSIVE\<rparr> \<and>
   fst (uvc_acquire_privileges \<lparr>state = UVC_HANDLE_PASSIVE\<rparr>
          (sys_stream (sys_run example_ext [Open 0, Open 1, Acquire 0]
             (sys_attach example_stream)))) = - EBUSY \<and>
   uvc_acquire_privileges \<lparr>state = UVC_HANDLE_PASSIVE\<rparr>
       (sys_stream (sys_call example_ext (Release 0)
          (sys_run example_ext [Open 0, Open 1, Acquire 0] (sys_attach example_stream)))) =
     (0, \<lparr>state = UVC_HANDLE_ACTIVE\<rparr>,
      (sys_stream (sys_call example_ext (Release 0)
          (sys_run example_ext [Open 0, Open 1, Acquire 0] (sys_attach example_stream))))
        \<lparr>active := 1\<rparr>)"
proof -
  let ?s = "sys_run example_ext [Open 0, Open 1, Acquire 0] (sys_attach example_stream)"
  let ?s' = "sys_call example_ext (Release 0) ?s"
  have a: "sys_files ?s 0 = Some \<lparr>state = UVC_HANDLE_ACTIVE\<rparr>"
    by (simp add: example_run_defs)
  have b: "sys_files ?s 1 = Some \<lparr>state = UVC_HANDLE_PASSIVE\<rparr>"
    by (simp add: example_run_defs)
  have c: "fst (uvc_acquire_privileges \<lparr>state = UVC_HANDLE_PASSIVE\<rparr> (sys_stream ?s)) = - EBUSY"
    by (simp add: example_run_defs)
  have d: "state \<lparr>state = UVC_HANDLE_ACTIVE\<rparr> = UVC_HANDLE_ACTIVE" by simp
  have e: "(1::nat) \<noteq> 0" by simp
  from release_dismisses_privileges [OF refl a refl]
  have "\<forall>g hg. g \<noteq> 0 \<and> sys_files ?s g = Some hg \<and>
          state \<lparr>state = UVC_HANDLE_ACTIVE\<rparr> = UVC_HANDLE_ACTIVE \<and>
          fst (uvc_acquire_privileges hg (sys_stream ?s)) = - EBUSY \<longrightarrow>
          sys_files ?s' g = Some hg \<and>
          uvc_acquire_privileges hg (sys_stream ?s') =
            (0, hg\<lparr>state := UVC_HANDLE_ACTIVE\<rparr>, (sys_stream ?s')\<lparr>active := 1\<rparr>)"
    by (elim conjE)
  then have "uvc_acquire_privileges \<lparr>state = UVC_HANDLE_PASSIVE\<rparr> (sys_stream ?s') =
            (0, \<lparr>state = UVC_HANDLE_PASSIVE\<rparr>\<lparr>state := UVC_HANDLE_ACTIVE\<rparr>,
             (sys_stream ?s')\<lparr>active := 1\<rparr>)"
    using b c d e by blast
  then have "uvc_acquire_privileges \<lparr>state = UVC_HANDLE_PASSIVE\<rparr> (sys_stream ?s') =
            (0, \<lparr>state = UVC_HANDLE_ACTIVE\<rparr>, (sys_stream ?s')\<lparr>active := 1\<rparr>)"
    by simp
  with a b c show ?thesis by (intro conjI)
qed

section \<open>Stream parameters without a current frame\<close>

lemma uvc_v4l2_get_format_unconfigured:
  "fmt_type fmt = stream_type stream \<Longrightarrow> cur_frame stream = None \<Longrightarrow>
   uvc_v4l2_get_format stream fmt = (- EINVAL, fmt)"
  by (simp add: uvc_v4l2_get_format_def split: option.splits)

lemma uvc_v4l2_set_streamparm_streaming:
  "parm_type parm = stream_type stream \<Longrightarrow> uvc_queue_streaming ext (queue stream) \<Longrightarrow>
   uvc_v4l2_set_streamparm ext stream parm = Inr (- EBUSY, stream, parm)"
  by (simp add: uvc_v4l2_set_streamparm_def)

text \<open>
  Claim C9.  The claim is that \<open>uvc_v4l2_set_streamparm\<close> fails with an
  error when no format has been set.  On the example stream, where
  \<open>cur_frame\<close> is NULL and the queue is not streaming, the function hands
  the NULL pointer to \<open>uvc_try_frame_interval\<close>, which dereferences it;
  \<open>uvc_v4l2_get_format\<close> on the same stream checks the pointer and returns
  \<open>-EINVAL\<close>.
\<close>

theorem uvc_v4l2_set_streamparm_null_frame:
  "cur_frame example_stream = None \<and>
   uvc_v4l2_set_streamparm example_ext example_stream
     \<lparr>parm_type = 1, timeperframe = (1, 30)\<rparr> = Inl NullPointer \<and>
   uvc_v4l2_get_format example_stream example_fmt = (- EINVAL, example_fmt)"
  by (simp add: uvc_v4l2_set_streamparm_def uvc_v4l2_get_format_def example_ext_def
      example_stream_def example_fmt_def)

section \<open>Format negotiation\<close>

lemma format_loop_find:
  "format_loop fs pf acc =
     (case find (\<lambda>f. fcc f = pf) fs of
        Some f \<Rightarrow> Some f
      | None \<Rightarrow> (if fs = [] then acc else Some (last fs)))"
  by (induction fs arbitrary: acc) (auto split: option.splits)

lemma format_loop_match:
  "format_loop fs pf None = Some fm \<Longrightarrow> fcc fm = pf \<Longrightarrow> find (\<lambda>f. fcc f = pf) fs = Some fm"
proof -
  assume a: "format_loop fs pf None = Some fm" and b: "fcc fm = pf"
  show ?thesis
  proof (cases "find (\<lambda>f. fcc f = pf) fs")
    case (Some f)
    then show ?thesis using a by (simp add: format_loop_find)
  next
    case None
    then have "fs \<noteq> []" and l: "last fs = fm"
      using a by (auto simp: format_loop_find split: if_splits)
    then have "fm \<in> set fs" by auto
    with None b show ?thesis by (auto simp: find_None_iff)
  qed
qed

lemma try_format_cases:
  assumes "uvc_v4l2_try_format ext stream fmt probe = Inr (ret, fmt', probe', fmo, fro)"
  shows "(ret < 0 \<and> fmt' = fmt \<and> fmo = None \<and> fro = None) \<or>
         (0 \<le> ret \<and>
          (\<exists>fm fr cand. fmo = Some fm \<and> fro = Some fr \<and>
             fmt_type fmt = stream_type stream \<and>
             find (\<lambda>f. fcc f = pix_pixelformat (pix fmt)) (format stream) = Some fm \<and>
             snd (snd (select_frame_size fm (ucast (pix_width (pix fmt)))
                         (ucast (pix_height (pix fmt))))) = Some fr \<and>
             uvc_probe_video ext stream cand = (ret, probe') \<and>
             fmt' = fmt\<lparr>pix := (pix fmt)
                      \<lparr>pix_width := ucast (wWidth fr),
                       pix_height := ucast (wHeight fr),
                       pix_field := V4L2_FIELD_NONE,
                       pix_bytesperline := word_of_nat (unat (bpp fm) * unat (wWidth fr) div 8),
                       pix_sizeimage := ctl_dwMaxVideoFrameSize probe',
                       pix_colorspace := ucast (colorspace fm),
                       pix_priv := 0\<rparr>\<rparr>))"
proof (cases "fmt_type fmt \<noteq> stream_type stream")
  case True
  then show ?thesis using assms by (simp add: uvc_v4l2_try_format_def EINVAL_def)
next
  case ty: False
  show ?thesis
  proof (cases "format_loop (format stream) (pix_pixelformat (pix fmt)) None")
    case None
    then show ?thesis using assms ty by (simp add: uvc_v4l2_try_format_def EINVAL_def)
  next
    case (Some fm)
    show ?thesis
    proof (cases "fcc fm \<noteq> pix_pixelformat (pix fmt)")
      case True
      then show ?thesis using assms ty Some by (simp add: uvc_v4l2_try_format_def EINVAL_def)
    next
      case fc: False
      then have fnd: "find (\<lambda>f. fcc f = pix_pixelformat (pix fmt)) (format stream) = Some fm"
        using format_loop_match [OF Some] by simp
      obtain i maxd fro' where sel:
        "select_frame_size fm (ucast (pix_width (pix fmt))) (ucast (pix_height (pix fmt)))
           = (i, maxd, fro')"
        by (cases "select_frame_size fm (ucast (pix_width (pix fmt)))
                     (ucast (pix_height (pix fmt)))") auto
      show ?thesis
      proof (cases fro')
        case None
        then show ?thesis using assms ty Some fc sel
          by (simp add: uvc_v4l2_try_format_def EINVAL_def)
      next
        case fr: (Some fr)
        show ?thesis
        proof (cases "uvc_try_frame_interval fr (dwDefaultFrameInterval fr)")
          case (Inl e)
          then show ?thesis using assms ty Some fc sel fr
            by (simp add: uvc_v4l2_try_format_def)
        next
          case (Inr interval)
          define probe1 where "probe1 = zero_ctrl
                                \<lparr>ctl_bmHint := 1, ctl_bFormatIndex := index fm,
                                 ctl_bFrameIndex := bFrameIndex fr,
                                 ctl_dwFrameInterval := interval\<rparr>"
          define probe2 where "probe2 = (if quirk_probe_extrafields stream
                                        then probe1\<lparr>ctl_dwMaxVideoFrameSize :=
                                               ctl_dwMaxVideoFrameSize (ctrl stream)\<rparr>
                                        else probe1)"
          define probe3 where "probe3 = (if quirk_reduce_mem_usage stream
                                        then probe2\<lparr>ctl_dwMaxVideoFrameSize :=
                                               reduced_frame_size fr\<rparr>
                                        else probe2)"
          obtain r p4 where pr: "uvc_probe_video ext stream probe3 = (r, p4)"
            by (cases "uvc_probe_video ext stream probe3") auto
          have res: "uvc_v4l2_try_format ext stream fmt probe =
                 (if r < 0 then Inr (r, fmt, p4, None, None)
                  else Inr (r,
                        fmt\<lparr>pix := (pix fmt)
                          \<lparr>pix_width := ucast (wWidth fr),
                           pix_height := ucast (wHeight fr),
                           pix_field := V4L2_FIELD_NONE,
                           pix_bytesperline := word_of_nat (unat (bpp fm) * unat (wWidth fr) div 8),
                           pix_sizeimage := ctl_dwMaxVideoFrameSize p4,
                           pix_colorspace := ucast (colorspace fm),
                           pix_priv := 0\<rparr>\<rparr>,
                        p4, Some fm, Some fr))"
            using ty Some fc sel fr Inr pr
            unfolding uvc_v4l2_try_format_def probe1_def probe2_def probe3_def
            by (simp add: Let_def)
          show ?thesis
          proof (cases "r < 0")
            case True
            then show ?thesis using assms res by simp
          next
            case False
            let ?F = "fmt\<lparr>pix := (pix fmt)
                          \<lparr>pix_width := ucast (wWidth fr),
                           pix_height := ucast (wHeight fr),
                           pix_field := V4L2_FIELD_NONE,
                           pix_bytesperline := word_of_nat (unat (bpp fm) * unat (wWidth fr) div 8),
                           pix_sizeimage := ctl_dwMaxVideoFrameSize p4,
                           pix_colorspace := ucast (colorspace fm),
                           pix_priv := 0\<rparr>\<rparr>"
            have "Inr (ret, fmt', probe', fmo, fro) = (Inr (r, ?F, p4, Some fm, Some fr)
                    :: fault + (int \<times> v4l2_format \<times> uvc_streaming_control
                   \<times> uvc_format option \<times> uvc_frame option))"
              using assms res False by (simp only: if_False)
            then have "ret = r" "probe' = p4" "fmo = Some fm" "fro = Some fr" "fmt' = ?F"
              by (simp_all only: sum.inject prod.inject)
            moreover have "snd (snd (select_frame_size fm (ucast (pix_width (pix fmt)))
                         (ucast (pix_height (pix fmt))))) = Some fr"
              using sel fr by simp
            ultimately show ?thesis using False fnd pr ty by auto
          qed
        qed
      qed
    qed
  qed
qed

lemma set_format_cases:
  assumes "uvc_v4l2_set_format ext probe stream fmt = Inr (ret, stream', fmt')"
  shows "(ret < 0 \<and> stream' = stream \<and> fmt' = fmt \<and>
            (fmt_type fmt \<noteq> stream_type stream \<or>
             (\<exists>p. uvc_v4l2_try_format ext stream fmt probe = Inr (ret, fmt, p, None, None)))) \<or>
         (ret = - EBUSY \<and> stream' = stream \<and> uvc_queue_allocated ext (queue stream) \<and>
            (\<exists>r p fmo fro. 0 \<le> r \<and>
               uvc_v4l2_try_format ext stream fmt probe = Inr (r, fmt', p, fmo, fro))) \<or>
         (0 \<le> ret \<and> \<not> uvc_queue_allocated ext (queue stream) \<and>
            (\<exists>p fmo fro.
               uvc_v4l2_try_format ext stream fmt probe = Inr (ret, fmt', p, fmo, fro) \<and>
               stream' = stream\<lparr>ctrl := p, cur_format := fmo, cur_frame := fro\<rparr>))"
proof (cases "fmt_type fmt \<noteq> stream_type stream")
  case True
  then show ?thesis using assms by (simp add: uvc_v4l2_set_format_def EINVAL_def)
next
  case ty: False
  show ?thesis
  proof (cases "uvc_v4l2_try_format ext stream fmt probe")
    case (Inl e)
    then show ?thesis using assms ty by (simp add: uvc_v4l2_set_format_def)
  next
    case (Inr t)
    obtain r f p fmo fro where t: "t = (r, f, p, fmo, fro)" by (cases t) auto
    have tf: "uvc_v4l2_try_format ext stream fmt probe = Inr (r, f, p, fmo, fro)"
      using Inr t by simp
    have res: "uvc_v4l2_set_format ext probe stream fmt =
        (if r < 0 then Inr (r, stream, f)
         else if uvc_queue_allocated ext (queue stream) then Inr (- EBUSY, stream, f)
         else Inr (r, stream\<lparr>ctrl := p, cur_format := fmo, cur_frame := fro\<rparr>, f))"
      using ty tf by (simp add: uvc_v4l2_set_format_def)
    show ?thesis
    proof (cases "r < 0")
      case True
      with try_format_cases [OF tf] have "f = fmt" "fmo = None" "fro = None" by auto
      then show ?thesis using assms res True tf by auto
    next
      case nneg: False
      show ?thesis
      proof (cases "uvc_queue_allocated ext (queue stream)")
        case True
        then have "ret = - EBUSY" "stream' = stream" "fmt' = f"
          using assms res nneg by simp_all
        then show ?thesis using True tf nneg by (auto simp: not_less)
      next
        case False
        then have "ret = r" "fmt' = f"
          "stream' = stream\<lparr>ctrl := p, cur_format := fmo, cur_frame := fro\<rparr>"
          using assms res nneg by simp_all
        then show ?thesis using False tf nneg by (auto simp: not_less)
      qed
    qed
  qed
qed

lemma set_streamparm_error:
  assumes "uvc_v4l2_set_streamparm ext stream parm = Inr (ret, stream', parm')"
    and "ret < 0"
  shows "stream' = stream"
proof (cases "parm_type parm \<noteq> stream_type stream \<or> uvc_queue_streaming ext (queue stream)")
  case True
  then show ?thesis using assms(1) by (auto simp: uvc_v4l2_set_streamparm_def Let_def split: if_splits)
next
  case False
  then have a: "parm_type parm = stream_type stream" "\<not> uvc_queue_streaming ext (queue stream)"
    by simp_all
  show ?thesis
  proof (cases "cur_frame stream")
    case None
    then show ?thesis using assms(1) a by (simp add: uvc_v4l2_set_streamparm_def Let_def)
  next
    case (Some fr)
    let ?iv = "uvc_fraction_to_interval ext (fst (timeperframe parm)) (snd (timeperframe parm))"
    show ?thesis
    proof (cases "uvc_try_frame_interval fr ?iv")
      case (Inl e)
      then show ?thesis using assms(1) a Some by (simp add: uvc_v4l2_set_streamparm_def Let_def)
    next
      case (Inr iv)
      obtain r p where pr: "uvc_probe_video ext stream ((ctrl stream)\<lparr>ctl_dwFrameInterval := iv\<rparr>) = (r, p)"
        by (cases "uvc_probe_video ext stream ((ctrl stream)\<lparr>ctl_dwFrameInterval := iv\<rparr>)") auto
      show ?thesis using assms a Some Inr pr
        by (auto simp: uvc_v4l2_set_streamparm_def Let_def split: if_splits)
    qed
  qed
qed

lemmas example_defs =
  example_ext_def example_reject_def example_stream_def example_fmt_def format_yuyv_def
  frame_640x480_def frame_1280x720_def zero_ctrl_def

lemmas try_format_eval =
  uvc_v4l2_try_format_def select_frame_size_def frame_dist_def uvc_try_frame_interval_def
  interval_loop.simps interval_dist_def rd_def EINVAL_def V4L2_FIELD_NONE_def

lemma ex_try:
  "uvc_v4l2_try_format example_ext example_stream example_fmt zero_ctrl =
     Inr (0,
          example_fmt\<lparr>pix := (pix example_fmt)
            \<lparr>pix_width := 640, pix_height := 480, pix_field := 1, pix_bytesperline := 1280,
             pix_sizeimage := 614400, pix_colorspace := 8, pix_priv := 0\<rparr>\<rparr>,
          zero_ctrl\<lparr>ctl_bmHint := 1, ctl_bFormatIndex := 1, ctl_bFrameIndex := 1,
                    ctl_dwFrameInterval := 333333, ctl_dwMaxVideoFrameSize := 614400\<rparr>,
          Some format_yuyv, Some frame_640x480)"
  by (simp add: example_defs try_format_eval)

lemma ex_try_reject:
  "uvc_v4l2_try_format example_reject example_stream example_fmt zero_ctrl =
     Inr (- 5, example_fmt,
          zero_ctrl\<lparr>ctl_bmHint := 1, ctl_bFormatIndex := 1, ctl_bFrameIndex := 1,
                    ctl_dwFrameInterval := 333333\<rparr>,
          None, None)"
  by (simp add: example_defs try_format_eval)

text \<open>
  Claim C10.  When \<open>uvc_v4l2_try_format\<close> returns a negative value the
  descriptor is as the caller supplied it.  When it returns 0 or more, the
  descriptor is the caller's with width and height those of the selected
  frame, \<open>bytesperline\<close> the format's \<open>bpp\<close> times the frame width
  divided by 8, \<open>sizeimage\<close> the \<open>dwMaxVideoFrameSize\<close> of the block the
  probe returned, \<open>colorspace\<close> that of the matched format (the first of
  the table with the requested fourcc), \<open>field\<close> none and \<open>priv\<close> 0.
  A successful \<open>uvc_v4l2_set_format\<close> leaves the same descriptor, with the
  committed format, frame and block; a failing one that did not fail on
  allocated buffers leaves the descriptor as supplied.
\<close>

theorem try_format_descriptor:
  "(\<forall>ret fmt' probe' fmo fro.
      uvc_v4l2_try_format ext stream fmt probe = Inr (ret, fmt', probe', fmo, fro) \<longrightarrow>
        (ret < 0 \<longrightarrow> fmt' = fmt) \<and>
        (0 \<le> ret \<longrightarrow>
           (\<exists>fm fr cand.
              find (\<lambda>f. fcc f = pix_pixelformat (pix fmt)) (format stream) = Some fm \<and>
              snd (snd (select_frame_size fm (ucast (pix_width (pix fmt)))
                          (ucast (pix_height (pix fmt))))) = Some fr \<and>
              uvc_probe_video ext stream cand = (ret, probe') \<and>
              fmt' = fmt\<lparr>pix := (pix fmt)
                       \<lparr>pix_width := ucast (wWidth fr),
                        pix_height := ucast (wHeight fr),
                        pix_field := V4L2_FIELD_NONE,
                        pix_bytesperline := word_of_nat (unat (bpp fm) * unat (wWidth fr) div 8),
                        pix_sizeimage := ctl_dwMaxVideoFrameSize probe',
                        pix_colorspace := ucast (colorspace fm),
                        pix_priv := 0\<rparr>\<rparr>))) \<and>
   (\<forall>ret stream' fmt'.
      uvc_v4l2_set_format ext probe stream fmt = Inr (ret, stream', fmt') \<longrightarrow>
        (ret < 0 \<and> \<not> uvc_queue_allocated ext (queue stream) \<longrightarrow> fmt' = fmt) \<and>
        (0 \<le> ret \<longrightarrow>
           (\<exists>fm fr.
              cur_format stream' = Some fm \<and> cur_frame stream' = Some fr \<and>
              find (\<lambda>f. fcc f = pix_pixelformat (pix fmt)) (format stream) = Some fm \<and>
              snd (snd (select_frame_size fm (ucast (pix_width (pix fmt)))
                          (ucast (pix_height (pix fmt))))) = Some fr \<and>
              fmt' = fmt\<lparr>pix := (pix fmt)
                       \<lparr>pix_width := ucast (wWidth fr),
                        pix_height := ucast (wHeight fr),
                        pix_field := V4L2_FIELD_NONE,
                        pix_bytesperline := word_of_nat (unat (bpp fm) * unat (wWidth fr) div 8),
                        pix_sizeimage := ctl_dwMaxVideoFrameSize (ctrl stream'),
                        pix_colorspace := ucast (colorspace fm),
                        pix_priv := 0\<rparr>\<rparr>)))"
proof (intro conjI allI impI)
  fix ret fmt' probe' fmo fro
  assume a: "uvc_v4l2_try_format ext stream fmt probe = Inr (ret, fmt', probe', fmo, fro)"
    and "ret < 0"
  with try_format_cases [OF a] show "fmt' = fmt" by auto
next
  fix ret fmt' probe' fmo fro
  assume a: "uvc_v4l2_try_format ext stream fmt probe = Inr (ret, fmt', probe', fmo, fro)"
    and "0 \<le> ret"
  with try_format_cases [OF a]
  show "\<exists>fm fr cand.
              find (\<lambda>f. fcc f = pix_pixelformat (pix fmt)) (format stream) = Some fm \<and>
              snd (snd (select_frame_size fm (ucast (pix_width (pix fmt)))
                          (ucast (pix_height (pix fmt))))) = Some fr \<and>
              uvc_probe_video ext stream cand = (ret, probe') \<and>
              fmt' = fmt\<lparr>pix := (pix fmt)
                       \<lparr>pix_width := ucast (wWidth fr),
                        pix_height := ucast (wHeight fr),
                        pix_field := V4L2_FIELD_NONE,
                        pix_bytesperline := word_of_nat (unat (bpp fm) * unat (wWidth fr) div 8),
                        pix_sizeimage := ctl_dwMaxVideoFrameSize probe',
                        pix_colorspace := ucast (colorspace fm),
                        pix_priv := 0\<rparr>\<rparr>"
    by (elim disjE conjE exE) (simp, blast)
next
  fix ret stream' fmt'
  assume a: "uvc_v4l2_set_format ext probe stream fmt = Inr (ret, stream', fmt')"
    and b: "ret < 0 \<and> \<not> uvc_queue_allocated ext (queue stream)"
  from set_format_cases [OF a] b show "fmt' = fmt"
    by (elim disjE conjE) simp_all
next
  fix ret stream' fmt'
  assume a: "uvc_v4l2_set_format ext probe stream fmt = Inr (ret, stream', fmt')"
    and b: "0 \<le> ret"
  from set_format_cases [OF a] b
  obtain p fmo fro where t: "uvc_v4l2_try_format ext stream fmt probe = Inr (ret, fmt', p, fmo, fro)"
    and s: "stream' = stream\<lparr>ctrl := p, cur_format := fmo, cur_frame := fro\<rparr>"
    by (elim disjE conjE exE) (simp_all add: EBUSY_def)
  from try_format_cases [OF t] b
  obtain fm fr where "fmo = Some fm" "fro = Some fr"
    "find (\<lambda>f. fcc f = pix_pixelformat (pix fmt)) (format stream) = Some fm"
    "snd (snd (select_frame_size fm (ucast (pix_width (pix fmt)))
                          (ucast (pix_height (pix fmt))))) = Some fr"
    "fmt' = fmt\<lparr>pix := (pix fmt)
                       \<lparr>pix_width := ucast (wWidth fr),
                        pix_height := ucast (wHeight fr),
                        pix_field := V4L2_FIELD_NONE,
                        pix_bytesperline := word_of_nat (unat (bpp fm) * unat (wWidth fr) div 8),
                        pix_sizeimage := ctl_dwMaxVideoFrameSize p,
                        pix_colorspace := ucast (colorspace fm),
                        pix_priv := 0\<rparr>\<rparr>"
    by (elim disjE conjE exE) simp_all
  then show "\<exists>fm fr.
              cur_format stream' = Some fm \<and> cur_frame stream' = Some fr \<and>
              find (\<lambda>f. fcc f = pix_pixelformat (pix fmt)) (format stream) = Some fm \<and>
              snd (snd (select_frame_size fm (ucast (pix_width (pix fmt)))
                          (ucast (pix_height (pix fmt))))) = Some fr \<and>
              fmt' = fmt\<lparr>pix := (pix fmt)
                       \<lparr>pix_width := ucast (wWidth fr),
                        pix_height := ucast (wHeight fr),
                        pix_field := V4L2_FIELD_NONE,
                        pix_bytesperline := word_of_nat (unat (bpp fm) * unat (wWidth fr) div 8),
                        pix_sizeimage := ctl_dwMaxVideoFrameSize (ctrl stream'),
                        pix_colorspace := ucast (colorspace fm),
                        pix_priv := 0\<rparr>\<rparr>"
    using s by (intro exI [of _ fm] exI [of _ fr]) simp
qed

theorem try_format_descriptor_witness:
  "uvc_v4l2_try_format example_ext example_stream example_fmt zero_ctrl =
     Inr (0,
          example_fmt\<lparr>pix := (pix example_fmt)
            \<lparr>pix_width := 640, pix_height := 480, pix_field := 1, pix_bytesperline := 1280,
             pix_sizeimage := 614400, pix_colorspace := 8, pix_priv := 0\<rparr>\<rparr>,
          zero_ctrl\<lparr>ctl_bmHint := 1, ctl_bFormatIndex := 1, ctl_bFrameIndex := 1,
                    ctl_dwFrameInterval := 333333, ctl_dwMaxVideoFrameSize := 614400\<rparr>,
          Some format_yuyv, Some frame_640x480) \<and>
   (\<exists>fm fr cand.
      find (\<lambda>f. fcc f = pix_pixelformat (pix example_fmt)) (format example_stream) = Some fm \<and>
      snd (snd (select_frame_size fm (ucast (pix_width (pix example_fmt)))
                  (ucast (pix_height (pix example_fmt))))) = Some fr \<and>
      uvc_probe_video example_ext example_stream cand =
        (0, zero_ctrl\<lparr>ctl_bmHint := 1, ctl_bFormatIndex := 1, ctl_bFrameIndex := 1,
                      ctl_dwFrameInterval := 333333, ctl_dwMaxVideoFrameSize := 614400\<rparr>) \<and>
      example_fmt\<lparr>pix := (pix example_fmt)
            \<lparr>pix_width := 640, pix_height := 480, pix_field := 1, pix_bytesperline := 1280,
             pix_sizeimage := 614400, pix_colorspace := 8, pix_priv := 0\<rparr>\<rparr> =
        example_fmt\<lparr>pix := (pix example_fmt)
                       \<lparr>pix_width := ucast (wWidth fr),
                        pix_height := ucast (wHeight fr),
                        pix_field := V4L2_FIELD_NONE,
                        pix_bytesperline := word_of_nat (unat (bpp fm) * unat (wWidth fr) div 8),
                        pix_sizeimage := ctl_dwMaxVideoFrameSize
                          (zero_ctrl\<lparr>ctl_bmHint := 1, ctl_bFormatIndex := 1, ctl_bFrameIndex := 1,
                             ctl_dwFrameInterval := 333333, ctl_dwMaxVideoFrameSize := 614400\<rparr>),
                        pix_colorspace := ucast (colorspace fm),
                        pix_priv := 0\<rparr>\<rparr>) \<and>
   uvc_v4l2_try_format example_reject example_stream example_fmt zero_ctrl =
     Inr (- 5, example_fmt,
          zero_ctrl\<lparr>ctl_bmHint := 1, ctl_bFormatIndex := 1, ctl_bFrameIndex := 1,
                    ctl_dwFrameInterval := 333333\<rparr>,
          None, None)"
proof -
  have nn: "(0::int) \<le> 0" by simp
  note t = try_format_descriptor [of example_ext example_stream example_fmt zero_ctrl,
      THEN conjunct1, rule_format, OF ex_try, THEN conjunct2, rule_format, OF nn]
  show ?thesis using t ex_try ex_try_reject by (intro conjI)
qed


text \<open>
  Claim C2, amended.  \<open>uvc_v4l2_set_format\<close> changes the stream only when
  it returns 0 or more, and then the queue has no buffers allocated and the
  stream holds the block, format and frame \<open>uvc_v4l2_try_format\<close> produced.
  Whenever the main queue has buffers allocated the call fails: with
  \<open>-EBUSY\<close> when the negotiation succeeded, with the error of the
  negotiation when it failed.  Whenever \<open>uvc_v4l2_set_format\<close> or
  \<open>uvc_v4l2_set_streamparm\<close> returns an error the stream is unchanged.
\<close>

theorem set_format_commit:
  "(\<forall>ret stream' fmt'.
      uvc_v4l2_set_format ext probe stream fmt = Inr (ret, stream', fmt') \<longrightarrow>
        (ret < 0 \<longrightarrow> stream' = stream) \<and>
        (uvc_queue_allocated ext (queue stream) \<longrightarrow> ret < 0) \<and>
        (0 \<le> ret \<longrightarrow>
           \<not> uvc_queue_allocated ext (queue stream) \<and>
           (\<exists>p fmo fro.
              uvc_v4l2_try_format ext stream fmt probe = Inr (ret, fmt', p, fmo, fro) \<and>
              stream' = stream\<lparr>ctrl := p, cur_format := fmo, cur_frame := fro\<rparr>))) \<and>
   (\<forall>r f p fmo fro.
      uvc_queue_allocated ext (queue stream) \<and>
      uvc_v4l2_try_format ext stream fmt probe = Inr (r, f, p, fmo, fro) \<longrightarrow>
        uvc_v4l2_set_format ext probe stream fmt =
          Inr (if r < 0 then r else - EBUSY, stream, f)) \<and>
   (\<forall>ret stream' parm'.
      uvc_v4l2_set_streamparm ext stream parm = Inr (ret, stream', parm') \<and> ret < 0 \<longrightarrow>
        stream' = stream)"
proof (intro conjI allI impI)
  fix ret stream' fmt'
  assume a: "uvc_v4l2_set_format ext probe stream fmt = Inr (ret, stream', fmt')" and "ret < 0"
  with set_format_cases [OF a] show "stream' = stream"
    by (elim disjE conjE) simp_all
next
  fix ret stream' fmt'
  assume a: "uvc_v4l2_set_format ext probe stream fmt = Inr (ret, stream', fmt')"
    and "uvc_queue_allocated ext (queue stream)"
  with set_format_cases [OF a] show "ret < 0"
    by (elim disjE conjE) (simp_all add: EBUSY_def)
next
  fix ret stream' fmt'
  assume a: "uvc_v4l2_set_format ext probe stream fmt = Inr (ret, stream', fmt')" and "0 \<le> ret"
  with set_format_cases [OF a] show "\<not> uvc_queue_allocated ext (queue stream)"
    by (elim disjE conjE) (simp_all add: EBUSY_def)
next
  fix ret stream' fmt'
  assume a: "uvc_v4l2_set_format ext probe stream fmt = Inr (ret, stream', fmt')" and "0 \<le> ret"
  with set_format_cases [OF a]
  show "\<exists>p fmo fro.
              uvc_v4l2_try_format ext stream fmt probe = Inr (ret, fmt', p, fmo, fro) \<and>
              stream' = stream\<lparr>ctrl := p, cur_format := fmo, cur_frame := fro\<rparr>"
    by (elim disjE conjE) (simp_all add: EBUSY_def)
next
  fix r f p fmo fro
  assume "uvc_queue_allocated ext (queue stream) \<and>
      uvc_v4l2_try_format ext stream fmt probe = Inr (r, f, p, fmo, fro)"
  then have al: "uvc_queue_allocated ext (queue stream)"
    and t: "uvc_v4l2_try_format ext stream fmt probe = Inr (r, f, p, fmo, fro)"
    by simp_all
  show "uvc_v4l2_set_format ext probe stream fmt = Inr (if r < 0 then r else - EBUSY, stream, f)"
  proof (cases "fmt_type fmt \<noteq> stream_type stream")
    case True
    then have "r = - EINVAL" "f = fmt" using t by (simp_all add: uvc_v4l2_try_format_def)
    then show ?thesis using True by (simp add: uvc_v4l2_set_format_def EINVAL_def)
  next
    case False
    then show ?thesis using al t by (simp add: uvc_v4l2_set_format_def)
  qed
next
  fix ret stream' parm'
  assume "uvc_v4l2_set_streamparm ext stream parm = Inr (ret, stream', parm') \<and> ret < 0"
  then show "stream' = stream" using set_streamparm_error by blast
qed


theorem set_format_commit_witness:
  "uvc_queue_allocated example_ext (queue (example_stream\<lparr>queue := 4\<rparr>)) \<and>
   uvc_v4l2_set_format example_ext zero_ctrl (example_stream\<lparr>queue := 4\<rparr>) example_fmt =
     Inr (- EBUSY, example_stream\<lparr>queue := 4\<rparr>,
          example_fmt\<lparr>pix := (pix example_fmt)
            \<lparr>pix_width := 640, pix_height := 480, pix_field := 1, pix_bytesperline := 1280,
             pix_sizeimage := 614400, pix_colorspace := 8, pix_priv := 0\<rparr>\<rparr>) \<and>
   uvc_v4l2_set_streamparm example_reject (example_stream\<lparr>cur_frame := Some frame_640x480\<rparr>)
       \<lparr>parm_type = 1, timeperframe = (1, 25)\<rparr> =
     Inr (- 5, example_stream\<lparr>cur_frame := Some frame_640x480\<rparr>,
          \<lparr>parm_type = 1, timeperframe = (1, 25)\<rparr>)"
proof -
  let ?s = "example_stream\<lparr>queue := 4\<rparr>"
  let ?f = "example_fmt\<lparr>pix := (pix example_fmt)
            \<lparr>pix_width := 640, pix_height := 480, pix_field := 1, pix_bytesperline := 1280,
             pix_sizeimage := 614400, pix_colorspace := 8, pix_priv := 0\<rparr>\<rparr>"
  let ?p = "zero_ctrl\<lparr>ctl_bmHint := 1, ctl_bFormatIndex := 1, ctl_bFrameIndex := 1,
                    ctl_dwFrameInterval := 333333, ctl_dwMaxVideoFrameSize := 614400\<rparr>"
  have al: "uvc_queue_allocated example_ext (queue ?s)"
    by (simp add: example_ext_def example_stream_def)
  have t: "uvc_v4l2_try_format example_ext ?s example_fmt zero_ctrl =
     Inr (0, ?f, ?p, Some format_yuyv, Some frame_640x480)"
    by (simp add: example_defs try_format_eval)
  note r = set_format_commit [of example_ext zero_ctrl ?s example_fmt,
      THEN conjunct2, THEN conjunct1, rule_format, OF conjI [OF al t]]
  have busy: "uvc_v4l2_set_format example_ext zero_ctrl ?s example_fmt = Inr (- EBUSY, ?s, ?f)"
    using r by simp
  have sp: "uvc_v4l2_set_streamparm example_reject (example_stream\<lparr>cur_frame := Some frame_640x480\<rparr>)
       \<lparr>parm_type = 1, timeperframe = (1, 25)\<rparr> =
     Inr (- 5, example_stream\<lparr>cur_frame := Some frame_640x480\<rparr>,
          \<lparr>parm_type = 1, timeperframe = (1, 25)\<rparr>)"
    by (simp add: uvc_v4l2_set_streamparm_def example_defs try_format_eval)
  show ?thesis using al busy sp by (intro conjI)
qed


text \<open>
  Claim C2 as stated fails: with buffers allocated on the main queue and a
  pixel format the device does not have, \<open>uvc_v4l2_set_format\<close> returns
  \<open>-EINVAL\<close>, not \<open>-EBUSY\<close>.
\<close>

theorem set_format_allocated_not_busy:
  "uvc_queue_allocated example_ext (queue (example_stream\<lparr>queue := 4\<rparr>)) \<and>
   uvc_v4l2_set_format example_ext zero_ctrl (example_stream\<lparr>queue := 4\<rparr>)
       (example_fmt\<lparr>pix := (pix example_fmt)\<lparr>pix_pixelformat := 0\<rparr>\<rparr>) =
     Inr (- EINVAL, example_stream\<lparr>queue := 4\<rparr>,
          example_fmt\<lparr>pix := (pix example_fmt)\<lparr>pix_pixelformat := 0\<rparr>\<rparr>) \<and>
   - EINVAL \<noteq> - EBUSY"
  by (simp add: uvc_v4l2_set_format_def uvc_v4l2_try_format_def example_defs EINVAL_def
      EBUSY_def)

section \<open>Still image format\<close>

lemma set_format_still_unfold:
  "uvc_v4l2_set_format_still ext probe stream fmt =
     (if fmt_type fmt \<noteq> stream_type stream then (- EINVAL, stream)
      else if still_decoding stream then (- EBUSY, stream)
      else if still_img_configed stream \<and> fst (uvc_free_buffers ext (still_queue stream)) < 0
      then (fst (uvc_free_buffers ext (still_queue stream)),
            stream\<lparr>still_queue := snd (uvc_free_buffers ext (still_queue stream))\<rparr>)
      else if fst (uvc_v4l2_try_format_still ext (still_stream1 ext stream) fmt probe) < 0
      then (fst (uvc_v4l2_try_format_still ext (still_stream1 ext stream) fmt probe),
            still_stream1 ext stream)
      else (fst (uvc_v4l2_try_format_still ext (still_stream1 ext stream) fmt probe),
            (still_stream1 ext stream)
              \<lparr>still_ctrl := snd (uvc_v4l2_try_format_still ext (still_stream1 ext stream) fmt probe),
               still_format := None, still_frame := None, still_img_configed := True\<rparr>))"
  by (simp add: uvc_v4l2_set_format_still_def still_stream1_def Let_def split_beta)

text \<open>
  Claim C3, amended.  With a descriptor of the stream's type,
  \<open>uvc_v4l2_set_format_still\<close> returns \<open>-EBUSY\<close> and leaves the stream
  untouched when \<open>still_decoding\<close> is set.  When it returns an error,
  \<open>still_ctrl\<close>, \<open>still_format\<close> and \<open>still_frame\<close> are those before
  the call.  The whole stream is unchanged only when no still format was
  configured before the call; when one was, \<open>uvc_free_buffers\<close> has been
  applied to the still queue and, if it succeeded, \<open>still_img_configed\<close>
  has been cleared, whatever \<open>uvc_v4l2_try_format_still\<close> returns
  afterwards.  On success \<open>still_ctrl\<close> is the probed block and
  \<open>still_img_configed\<close> is set.
\<close>

theorem set_format_still_commit:
  "(fmt_type fmt = stream_type stream \<and> still_decoding stream \<longrightarrow>
      uvc_v4l2_set_format_still ext probe stream fmt = (- EBUSY, stream)) \<and>
   (\<forall>ret stream'.
      uvc_v4l2_set_format_still ext probe stream fmt = (ret, stream') \<longrightarrow>
        (ret < 0 \<longrightarrow>
           still_ctrl stream' = still_ctrl stream \<and>
           still_format stream' = still_format stream \<and>
           still_frame stream' = still_frame stream \<and>
           (\<not> still_img_configed stream \<longrightarrow> stream' = stream) \<and>
           (still_img_configed stream \<and> fmt_type fmt = stream_type stream \<and>
            \<not> still_decoding stream \<longrightarrow>
              stream' =
                (if fst (uvc_free_buffers ext (still_queue stream)) < 0
                 then stream\<lparr>still_queue := snd (uvc_free_buffers ext (still_queue stream))\<rparr>
                 else stream\<lparr>still_queue := snd (uvc_free_buffers ext (still_queue stream)),
                             still_img_configed := False\<rparr>))) \<and>
        (0 \<le> ret \<longrightarrow>
           still_img_configed stream' \<and>
           uvc_v4l2_try_format_still ext (still_stream1 ext stream) fmt probe
             = (ret, still_ctrl stream')))"
proof (intro conjI allI impI)
  assume "fmt_type fmt = stream_type stream \<and> still_decoding stream"
  then show "uvc_v4l2_set_format_still ext probe stream fmt = (- EBUSY, stream)"
    by (simp add: uvc_v4l2_set_format_still_def)
next
  fix ret stream'
  assume a: "uvc_v4l2_set_format_still ext probe stream fmt = (ret, stream')" and n: "ret < 0"
  show "still_ctrl stream' = still_ctrl stream"
    using a n by (auto simp: set_format_still_unfold still_stream1_def split: if_splits)
  show "still_format stream' = still_format stream"
    using a n by (auto simp: set_format_still_unfold still_stream1_def split: if_splits)
  show "still_frame stream' = still_frame stream"
    using a n by (auto simp: set_format_still_unfold still_stream1_def split: if_splits)
  show "stream' = stream" if "\<not> still_img_configed stream"
    using a n that by (auto simp: set_format_still_unfold still_stream1_def split: if_splits)
  show "stream' =
                (if fst (uvc_free_buffers ext (still_queue stream)) < 0
                 then stream\<lparr>still_queue := snd (uvc_free_buffers ext (still_queue stream))\<rparr>
                 else stream\<lparr>still_queue := snd (uvc_free_buffers ext (still_queue stream)),
                             still_img_configed := False\<rparr>)"
    if "still_img_configed stream \<and> fmt_type fmt = stream_type stream \<and>
            \<not> still_decoding stream"
    using a n that by (auto simp: set_format_still_unfold still_stream1_def split: if_splits)
next
  fix ret stream'
  assume a: "uvc_v4l2_set_format_still ext probe stream fmt = (ret, stream')" and n: "0 \<le> ret"
  show "still_img_configed stream'"
    using a n
    by (auto simp: set_format_still_unfold EINVAL_def EBUSY_def split: if_splits)
  show "uvc_v4l2_try_format_still ext (still_stream1 ext stream) fmt probe
          = (ret, still_ctrl stream')"
    using a n
    by (auto simp: set_format_still_unfold EINVAL_def EBUSY_def prod_eq_iff split: if_splits)
qed

theorem set_format_still_commit_witness:
  "fmt_type example_fmt = stream_type (example_stream\<lparr>still_decoding := True\<rparr>) \<and>
   still_decoding (example_stream\<lparr>still_decoding := True\<rparr>) \<and>
   uvc_v4l2_set_format_still example_ext zero_ctrl
       (example_stream\<lparr>still_decoding := True\<rparr>) example_fmt
     = (- EBUSY, example_stream\<lparr>still_decoding := True\<rparr>) \<and>
   uvc_v4l2_set_format_still example_ext zero_ctrl example_stream
       (example_fmt\<lparr>pix := (pix example_fmt)\<lparr>pix_width := 800, pix_height := 600\<rparr>\<rparr>)
     = (0, example_stream
             \<lparr>still_ctrl := zero_ctrl\<lparr>ctl_bFormatIndex := 1, ctl_bFrameIndex := 1,
                                      ctl_dwMaxVideoFrameSize := 960000\<rparr>,
              still_img_configed := True\<rparr>) \<and>
   uvc_v4l2_set_format_still example_reject zero_ctrl example_stream
       (example_fmt\<lparr>pix := (pix example_fmt)\<lparr>pix_width := 800, pix_height := 600\<rparr>\<rparr>)
     = (- 5, example_stream)"
proof -
  have a: "fmt_type example_fmt = stream_type (example_stream\<lparr>still_decoding := True\<rparr>) \<and>
           still_decoding (example_stream\<lparr>still_decoding := True\<rparr>)"
    by (simp add: example_defs)
  note t = set_format_still_commit [of example_fmt "example_stream\<lparr>still_decoding := True\<rparr>"
      example_ext zero_ctrl, THEN conjunct1, rule_format, OF a]
  have b: "uvc_v4l2_set_format_still example_ext zero_ctrl example_stream
       (example_fmt\<lparr>pix := (pix example_fmt)\<lparr>pix_width := 800, pix_height := 600\<rparr>\<rparr>)
     = (0, example_stream
             \<lparr>still_ctrl := zero_ctrl\<lparr>ctl_bFormatIndex := 1, ctl_bFrameIndex := 1,
                                      ctl_dwMaxVideoFrameSize := 960000\<rparr>,
              still_img_configed := True\<rparr>)"
    by (simp add: uvc_v4l2_set_format_still_def uvc_v4l2_try_format_still_def
        uvc_v4l2_get_still_idx_def example_defs EINVAL_def)
  have c: "uvc_v4l2_set_format_still example_reject zero_ctrl example_stream
       (example_fmt\<lparr>pix := (pix example_fmt)\<lparr>pix_width := 800, pix_height := 600\<rparr>\<rparr>)
     = (- 5, example_stream)"
    by (simp add: uvc_v4l2_set_format_still_def uvc_v4l2_try_format_still_def
        uvc_v4l2_get_still_idx_def example_defs EINVAL_def)
  show ?thesis using a t b c by (intro conjI) simp_all
qed

text \<open>
  Claim C3 as stated fails: with a still format configured and three buffers
  on the still queue, a request for a pixel format the device does not have
  fails in \<open>uvc_v4l2_try_format_still\<close>, and the stream is left with the
  still buffers released and \<open>still_img_configed\<close> cleared.
\<close>

theorem set_format_still_releases_before_try:
  "still_img_configed (example_stream\<lparr>still_queue := 3, still_img_configed := True\<rparr>) \<and>
   fst (uvc_v4l2_try_format_still example_ext
          (example_stream\<lparr>still_queue := 0, still_img_configed := False\<rparr>)
          (example_fmt\<lparr>pix := (pix example_fmt)\<lparr>pix_pixelformat := 0\<rparr>\<rparr>) zero_ctrl) < 0 \<and>
   uvc_v4l2_set_format_still example_ext zero_ctrl
       (example_stream\<lparr>still_queue := 3, still_img_configed := True\<rparr>)
       (example_fmt\<lparr>pix := (pix example_fmt)\<lparr>pix_pixelformat := 0\<rparr>\<rparr>) =
     (- EINVAL, example_stream\<lparr>still_queue := 0, still_img_configed := False\<rparr>) \<and>
   example_stream\<lparr>still_queue := 0, still_img_configed := False\<rparr> \<noteq>
     example_stream\<lparr>still_queue := 3, still_img_configed := True\<rparr>"
  by (simp add: uvc_v4l2_set_format_still_def uvc_v4l2_try_format_still_def example_defs
      EINVAL_def)

section \<open>The closest frame size\<close>

lemma overlap_bounds:
  fixes W H RW RH M :: int
  assumes "0 \<le> W" "W \<le> M" "0 \<le> H" "H \<le> M" "0 \<le> RW" "RW \<le> M" "0 \<le> RH" "RH \<le> M"
  shows "0 \<le> spec_overlap_distance W H RW RH \<and> spec_overlap_distance W H RW RH \<le> M * M"
proof -
  have M: "0 \<le> M" using assms by linarith
  consider (a) "W \<le> RW" "H \<le> RH" | (b) "W \<le> RW" "RH < H" | (c) "RW < W" "H \<le> RH"
    | (d) "RW < W" "RH < H" by linarith
  then show ?thesis
  proof cases
    case a
    have d: "spec_overlap_distance W H RW RH = RW * RH - W * H"
      using a by (simp add: spec_overlap_distance_def min_def)
    have "W * H \<le> RW * RH" using a assms by (intro mult_mono) simp_all
    moreover have "RW * RH \<le> M * M" using assms M by (intro mult_mono) simp_all
    moreover have "0 \<le> W * H" using assms by simp
    ultimately show ?thesis using d by linarith
  next
    case d
    have e: "spec_overlap_distance W H RW RH = W * H - RW * RH"
      using d by (simp add: spec_overlap_distance_def min_def)
    have "RW * RH \<le> W * H" using d assms by (intro mult_mono) simp_all
    moreover have "W * H \<le> M * M" using assms M by (intro mult_mono) simp_all
    moreover have "0 \<le> RW * RH" using assms by simp
    ultimately show ?thesis using e by linarith
  next
    case b
    have e: "spec_overlap_distance W H RW RH = W * (H - RH) + RH * (RW - W)"
      using b by (simp add: spec_overlap_distance_def min_def algebra_simps)
    have p1: "0 \<le> W * (H - RH)" using b assms by (intro mult_nonneg_nonneg) simp_all
    have p2: "0 \<le> RH * (RW - W)" using b assms by (intro mult_nonneg_nonneg) simp_all
    have c: "M * M - (W * (H - RH) + RH * (RW - W)) =
             (M - W) * (M - RH) + W * (M - H) + RH * (M - RW) + W * RH"
      by (simp add: algebra_simps)
    have "0 \<le> (M - W) * (M - RH)" using assms by (intro mult_nonneg_nonneg) simp_all
    moreover have "0 \<le> W * (M - H)" using assms by (intro mult_nonneg_nonneg) simp_all
    moreover have "0 \<le> RH * (M - RW)" using assms by (intro mult_nonneg_nonneg) simp_all
    moreover have "0 \<le> W * RH" using assms by (intro mult_nonneg_nonneg) simp_all
    ultimately have "0 \<le> M * M - (W * (H - RH) + RH * (RW - W))" using c by linarith
    then show ?thesis using e p1 p2 by linarith
  next
    case c
    have e: "spec_overlap_distance W H RW RH = H * (W - RW) + RW * (RH - H)"
      using c by (simp add: spec_overlap_distance_def min_def algebra_simps)
    have p1: "0 \<le> H * (W - RW)" using c assms by (intro mult_nonneg_nonneg) simp_all
    have p2: "0 \<le> RW * (RH - H)" using c assms by (intro mult_nonneg_nonneg) simp_all
    have i: "M * M - (H * (W - RW) + RW * (RH - H)) =
             (M - RW) * (M - H) + RW * (M - RH) + H * (M - W) + RW * H"
      by (simp add: algebra_simps)
    have "0 \<le> (M - RW) * (M - H)" using assms by (intro mult_nonneg_nonneg) simp_all
    moreover have "0 \<le> RW * (M - RH)" using assms by (intro mult_nonneg_nonneg) simp_all
    moreover have "0 \<le> H * (M - W)" using assms by (intro mult_nonneg_nonneg) simp_all
    moreover have "0 \<le> RW * H" using assms by (intro mult_nonneg_nonneg) simp_all
    ultimately have "0 \<le> M * M - (H * (W - RW) + RW * (RH - H))" using i by linarith
    then show ?thesis using e p1 p2 by linarith
  qed
qed

lemma overlap_zero_exact:
  fixes W H RW RH :: int
  assumes "0 \<le> W" "0 \<le> H" "0 < RW" "0 < RH"
    and z: "spec_overlap_distance W H RW RH = 0"
  shows "W = RW \<and> H = RH"
proof -
  consider (a) "W \<le> RW" "H \<le> RH" | (b) "W \<le> RW" "RH < H" | (c) "RW < W" "H \<le> RH"
    | (d) "RW < W" "RH < H" by linarith
  then show ?thesis
  proof cases
    case a
    have e: "RW * RH = W * H"
      using a z by (simp add: spec_overlap_distance_def min_def)
    have w: "W = RW"
    proof (rule ccontr)
      assume "W \<noteq> RW"
      then have "W < RW" using a by simp
      then have "W * RH < RW * RH" using assms by (intro mult_strict_right_mono) simp_all
      moreover have "W * H \<le> W * RH" using a assms by (intro mult_left_mono) simp_all
      ultimately show False using e by linarith
    qed
    then have "RW * RH = RW * H" using e by simp
    then have "RH = H" using assms by simp
    with w show ?thesis by simp
  next
    case d
    have e: "W * H = RW * RH"
      using d z by (simp add: spec_overlap_distance_def min_def)
    have "RW * RH < W * RH" using d assms by (intro mult_strict_right_mono) simp_all
    moreover have "W * RH \<le> W * H" using d assms by (intro mult_left_mono) simp_all
    ultimately show ?thesis using e by linarith
  next
    case b
    have e: "W * (H - RH) + RH * (RW - W) = 0"
      using b z by (simp add: spec_overlap_distance_def min_def algebra_simps)
    have p1: "0 \<le> W * (H - RH)" using b assms by (intro mult_nonneg_nonneg) simp_all
    have p2: "0 \<le> RH * (RW - W)" using b assms by (intro mult_nonneg_nonneg) simp_all
    from e p1 p2 have "W * (H - RH) = 0" "RH * (RW - W) = 0" by linarith+
    then have "W = 0" "RW = W" using b assms by simp_all
    then show ?thesis using assms by simp
  next
    case c
    have e: "H * (W - RW) + RW * (RH - H) = 0"
      using c z by (simp add: spec_overlap_distance_def min_def algebra_simps)
    have p1: "0 \<le> H * (W - RW)" using c assms by (intro mult_nonneg_nonneg) simp_all
    have p2: "0 \<le> RW * (RH - H)" using c assms by (intro mult_nonneg_nonneg) simp_all
    from e p1 p2 have "H * (W - RW) = 0" "RW * (RH - H) = 0" by linarith+
    then have "H = 0" "RH = H" using c assms by simp_all
    then show ?thesis using assms by simp
  qed
qed

lemma overlap_exact_zero: "spec_overlap_distance W H W H = 0"
  by (simp add: spec_overlap_distance_def)

lemma uint_u16_bound: "uint (w :: u16) \<le> 65535"
  using uint_bounded [of w] by simp

lemma uint_min_word: "uint (min a b) = min (uint a) (uint b)" for a b :: "'a::len word"
  by (simp add: min_def word_le_def)

lemma frame_dist_overlap:
  "uint (frame_dist w h rw rh) = spec_overlap_distance (uint w) (uint h) (uint rw) (uint rh)"
proof -
  let ?D = "spec_overlap_distance (uint w) (uint h) (uint rw) (uint rh)"
  have b: "0 \<le> ?D \<and> ?D \<le> 65535 * 65535"
    by (rule overlap_bounds) (simp_all add: uint_u16_bound)
  have two: "(2 :: u32) = word_of_int 2" by simp
  have "frame_dist w h rw rh =
          (word_of_int (uint w) :: u32) * word_of_int (uint h)
          + word_of_int (uint rw) * word_of_int (uint rh)
          - word_of_int 2 * (word_of_int (min (uint w) (uint rw))
                              * word_of_int (min (uint h) (uint rh)))"
    unfolding frame_dist_def Let_def ucast_eq uint_min_word two ..
  also have "\<dots> = (word_of_int ?D :: u32)"
    unfolding wi_hom_mult wi_hom_add wi_hom_sub spec_overlap_distance_def
    by (simp only: mult.assoc)
  finally have "frame_dist w h rw rh = (word_of_int ?D :: u32)" .
  then have "uint (frame_dist w h rw rh) = ?D mod 2 ^ 32"
    by (simp add: uint_word_of_int)
  also have "\<dots> = ?D" using b by simp
  finally show ?thesis .
qed

lemma frame_dist_not_max: "frame_dist w h rw rh < - 1"
proof -
  have "uint (frame_dist w h rw rh) \<le> 65535 * 65535"
    unfolding frame_dist_overlap
    using overlap_bounds [of "uint w" 65535 "uint h" "uint rw" "uint rh"]
    by (simp add: uint_u16_bound)
  moreover have "uint (- 1 :: u32) = 4294967295"
    by (simp add: unsigned_minus_1_eq_mask mask_eq_exp_minus_1)
  ultimately have "uint (frame_dist w h rw rh) < uint (- 1 :: u32)" by simp
  then show ?thesis by (simp only: word_less_def)
qed

lemma frame_loop_char:
  assumes "maxd \<noteq> 0"
  shows "(if \<forall>g\<in>set fs. maxd \<le> frame_dist (wWidth g) (wHeight g) rw rh
          then frame_loop fs rw rh i maxd fr = (i + length fs, maxd, fr)
          else (\<exists>pre f post.
                  fs = pre @ f # post \<and>
                  frame_dist (wWidth f) (wHeight f) rw rh < maxd \<and>
                  (\<forall>g\<in>set pre. frame_dist (wWidth f) (wHeight f) rw rh
                                    < frame_dist (wWidth g) (wHeight g) rw rh) \<and>
                  (\<forall>g\<in>set post. frame_dist (wWidth f) (wHeight f) rw rh
                                    \<le> frame_dist (wWidth g) (wHeight g) rw rh) \<and>
                  frame_loop fs rw rh i maxd fr =
                    (if frame_dist (wWidth f) (wHeight f) rw rh = 0 then i + length pre
                     else i + length fs,
                     frame_dist (wWidth f) (wHeight f) rw rh, Some f)))"
  using assms
proof (induction fs arbitrary: i maxd fr)
  case Nil
  then show ?case by simp
next
  case (Cons a fs)
  let ?d = "\<lambda>g. frame_dist (wWidth g) (wHeight g) rw rh"
  show ?case
  proof (cases "?d a < maxd")
    case lt: True
    show ?thesis
    proof (cases "?d a = 0")
      case True
      have "frame_loop (a # fs) rw rh i maxd fr = (i, 0, Some a)"
        using lt True by simp
      moreover have "\<forall>g\<in>set fs. ?d a \<le> ?d g" using True by simp
      ultimately have "a # fs = [] @ a # fs \<and> ?d a < maxd \<and>
          (\<forall>g\<in>set []. ?d a < ?d g) \<and> (\<forall>g\<in>set fs. ?d a \<le> ?d g) \<and>
          frame_loop (a # fs) rw rh i maxd fr =
            (if ?d a = 0 then i + length ([] :: uvc_frame list) else i + length (a # fs),
             ?d a, Some a)"
        using lt True by simp
      then have "\<exists>pre f post. a # fs = pre @ f # post \<and> ?d f < maxd \<and>
          (\<forall>g\<in>set pre. ?d f < ?d g) \<and> (\<forall>g\<in>set post. ?d f \<le> ?d g) \<and>
          frame_loop (a # fs) rw rh i maxd fr =
            (if ?d f = 0 then i + length pre else i + length (a # fs), ?d f, Some f)"
        by blast
      moreover have "\<not> (\<forall>g\<in>set (a # fs). maxd \<le> ?d g)" using lt by auto
      ultimately show ?thesis by (simp only: if_False)
    next
      case nz: False
      have step: "frame_loop (a # fs) rw rh i maxd fr = frame_loop fs rw rh (Suc i) (?d a) (Some a)"
        using lt nz by simp
      have nall: "\<not> (\<forall>g\<in>set (a # fs). maxd \<le> ?d g)" using lt by auto
      note IH = Cons.IH [OF nz, of "Suc i" "Some a"]
      have "\<exists>pre f post. a # fs = pre @ f # post \<and> ?d f < maxd \<and>
          (\<forall>g\<in>set pre. ?d f < ?d g) \<and> (\<forall>g\<in>set post. ?d f \<le> ?d g) \<and>
          frame_loop (a # fs) rw rh i maxd fr =
            (if ?d f = 0 then i + length pre else i + length (a # fs), ?d f, Some f)"
      proof (cases "\<forall>g\<in>set fs. ?d a \<le> ?d g")
        case True
        then have "frame_loop fs rw rh (Suc i) (?d a) (Some a) = (Suc i + length fs, ?d a, Some a)"
          using IH by simp
        then have "a # fs = [] @ a # fs \<and> ?d a < maxd \<and>
          (\<forall>g\<in>set []. ?d a < ?d g) \<and> (\<forall>g\<in>set fs. ?d a \<le> ?d g) \<and>
          frame_loop (a # fs) rw rh i maxd fr =
            (if ?d a = 0 then i + length ([] :: uvc_frame list) else i + length (a # fs),
             ?d a, Some a)"
          using step lt nz True by simp
        then show ?thesis by blast
      next
        case False
        then obtain pre f post where p: "fs = pre @ f # post" "?d f < ?d a"
          "\<forall>g\<in>set pre. ?d f < ?d g" "\<forall>g\<in>set post. ?d f \<le> ?d g"
          "frame_loop fs rw rh (Suc i) (?d a) (Some a) =
             (if ?d f = 0 then Suc i + length pre else Suc i + length fs, ?d f, Some f)"
          using IH by (simp only: if_False) blast
        have "a # fs = (a # pre) @ f # post" using p(1) by simp
        moreover have "?d f < maxd" using p(2) lt by simp
        moreover have "\<forall>g\<in>set (a # pre). ?d f < ?d g" using p(2,3) by simp
        moreover have "frame_loop (a # fs) rw rh i maxd fr =
            (if ?d f = 0 then i + length (a # pre) else i + length (a # fs), ?d f, Some f)"
          using step p(5) by simp
        ultimately show ?thesis using p(4) by blast
      qed
      then show ?thesis using nall by (simp only: if_False)
    qed
  next
    case ge: False
    have step: "frame_loop (a # fs) rw rh i maxd fr = frame_loop fs rw rh (Suc i) maxd fr"
      using ge Cons.prems by simp
    note IH = Cons.IH [OF Cons.prems, of "Suc i" fr]
    show ?thesis
    proof (cases "\<forall>g\<in>set fs. maxd \<le> ?d g")
      case True
      then have "frame_loop fs rw rh (Suc i) maxd fr = (Suc i + length fs, maxd, fr)"
        using IH by simp
      moreover have "\<forall>g\<in>set (a # fs). maxd \<le> ?d g" using True ge by (simp add: not_less)
      ultimately show ?thesis using step by (simp only: if_True) simp
    next
      case False
      then obtain pre f post where p: "fs = pre @ f # post" "?d f < maxd"
          "\<forall>g\<in>set pre. ?d f < ?d g" "\<forall>g\<in>set post. ?d f \<le> ?d g"
          "frame_loop fs rw rh (Suc i) maxd fr =
             (if ?d f = 0 then Suc i + length pre else Suc i + length fs, ?d f, Some f)"
        using IH by (simp only: if_False) blast
      have "a # fs = (a # pre) @ f # post" using p(1) by simp
      moreover have "\<forall>g\<in>set (a # pre). ?d f < ?d g" using p(2,3) ge by (simp add: not_less)
      moreover have "frame_loop (a # fs) rw rh i maxd fr =
            (if ?d f = 0 then i + length (a # pre) else i + length (a # fs), ?d f, Some f)"
        using step p(5) by simp
      ultimately have "\<exists>pre f post. a # fs = pre @ f # post \<and> ?d f < maxd \<and>
          (\<forall>g\<in>set pre. ?d f < ?d g) \<and> (\<forall>g\<in>set post. ?d f \<le> ?d g) \<and>
          frame_loop (a # fs) rw rh i maxd fr =
            (if ?d f = 0 then i + length pre else i + length (a # fs), ?d f, Some f)"
        using p(2,4) by blast
      moreover have "\<not> (\<forall>g\<in>set (a # fs). maxd \<le> ?d g)" using False by simp
      ultimately show ?thesis by (simp only: if_False)
    qed
  qed
qed

lemma overlap_distance_frame_dist:
  "overlap_distance f rw rh = uint (frame_dist (wWidth f) (wHeight f) rw rh)"
  by (simp add: overlap_distance_def frame_dist_overlap)

lemma overlap_distance_nonneg: "0 \<le> overlap_distance f rw rh"
  by (simp add: overlap_distance_frame_dist)

text \<open>
  The scan with \<open>rw\<close> and \<open>rh\<close> as it holds them, in 16 bits like the
  frame sizes.  The 32-bit distance the code computes is the overlap distance
  over the integers: nothing wraps.  The selected frame \<open>f\<close> splits a
  non-empty list into \<open>pre @ f # post\<close>: every frame before it is strictly
  farther and no frame after it is closer.  The scan leaves the loop at the
  index of \<open>f\<close> when its distance is 0 and at the end of the list otherwise.
\<close>

lemma select_frame_size_scan:
  "(frame fm = [] \<longrightarrow> select_frame_size fm rw rh = (0, - 1, None)) \<and>
   (frame fm \<noteq> [] \<longrightarrow>
      (\<exists>pre f post.
         frame fm = pre @ f # post \<and>
         select_frame_size fm rw rh =
           (if overlap_distance f rw rh = 0 then length pre else length (frame fm),
            word_of_int (overlap_distance f rw rh), Some f) \<and>
         (\<forall>g\<in>set pre. overlap_distance f rw rh < overlap_distance g rw rh) \<and>
         (\<forall>g\<in>set post. overlap_distance f rw rh \<le> overlap_distance g rw rh) \<and>
         ((\<exists>g\<in>set (frame fm). wWidth g = rw \<and> wHeight g = rh) \<longrightarrow>
            overlap_distance f rw rh = 0 \<and>
            (rw \<noteq> 0 \<and> rh \<noteq> 0 \<longrightarrow> wWidth f = rw \<and> wHeight f = rh)))) \<and>
   uint (frame_dist w h rw rh) = spec_overlap_distance (uint w) (uint h) (uint rw) (uint rh) \<and>
   (fmt_type fmt = stream_type stream \<and>
    find (\<lambda>f. fcc f = pix_pixelformat (pix fmt)) (format stream) = Some fm \<and>
    frame fm = [] \<longrightarrow>
      uvc_v4l2_try_format ext stream fmt probe = Inr (- EINVAL, fmt, probe, None, None))"
proof (intro conjI impI)
  assume "frame fm = []"
  then show "select_frame_size fm rw rh = (0, - 1, None)"
    by (simp add: select_frame_size_def)
next
  assume ne: "frame fm \<noteq> []"
  let ?d = "\<lambda>g. frame_dist (wWidth g) (wHeight g) rw rh"
  have m1: "(- 1 :: u32) \<noteq> 0" by simp
  obtain a where "a \<in> set (frame fm)" using ne by (cases "frame fm") auto
  then have nall: "\<not> (\<forall>g\<in>set (frame fm). - 1 \<le> ?d g)"
    using frame_dist_not_max [of "wWidth a" "wHeight a" rw rh] by (auto simp: not_le)
  have "\<exists>pre f post. frame fm = pre @ f # post \<and> ?d f < - 1 \<and>
      (\<forall>g\<in>set pre. ?d f < ?d g) \<and> (\<forall>g\<in>set post. ?d f \<le> ?d g) \<and>
      frame_loop (frame fm) rw rh 0 (- 1) None =
       (if ?d f = 0 then 0 + length pre else 0 + length (frame fm), ?d f, Some f)"
    using frame_loop_char [OF m1, of "frame fm" rw rh 0 None] nall
    by (simp only: if_False)
  then obtain pre f post where p: "frame fm = pre @ f # post"
    "\<forall>g\<in>set pre. ?d f < ?d g" "\<forall>g\<in>set post. ?d f \<le> ?d g"
    "frame_loop (frame fm) rw rh 0 (- 1) None =
       (if ?d f = 0 then 0 + length pre else 0 + length (frame fm), ?d f, Some f)"
    by blast
  have z: "?d f = 0 \<longleftrightarrow> overlap_distance f rw rh = 0"
    by (simp add: overlap_distance_frame_dist uint_0_iff)
  have w: "?d f = word_of_int (overlap_distance f rw rh)"
    by (simp add: overlap_distance_frame_dist)
  have sel: "select_frame_size fm rw rh =
           (if overlap_distance f rw rh = 0 then length pre else length (frame fm),
            word_of_int (overlap_distance f rw rh), Some f)"
    unfolding select_frame_size_def p(4) z w [symmetric] by simp
  have lt: "\<forall>g\<in>set pre. overlap_distance f rw rh < overlap_distance g rw rh"
    using p(2) by (simp add: overlap_distance_frame_dist word_less_def)
  have le: "\<forall>g\<in>set post. overlap_distance f rw rh \<le> overlap_distance g rw rh"
    using p(3) by (simp add: overlap_distance_frame_dist word_le_def)
  have ex: "overlap_distance f rw rh = 0 \<and>
            (rw \<noteq> 0 \<and> rh \<noteq> 0 \<longrightarrow> wWidth f = rw \<and> wHeight f = rh)"
    if "\<exists>g\<in>set (frame fm). wWidth g = rw \<and> wHeight g = rh"
  proof -
    from that obtain g where g: "g \<in> set (frame fm)" "wWidth g = rw" "wHeight g = rh" by blast
    have g0: "overlap_distance g rw rh = 0"
      using g(2,3) by (simp add: overlap_distance_def overlap_exact_zero)
    have "g \<in> set pre \<or> g = f \<or> g \<in> set post" using g(1) p(1) by auto
    then have "overlap_distance f rw rh \<le> 0"
      using g0 lt le by (elim disjE) force+
    then have f0: "overlap_distance f rw rh = 0"
      using overlap_distance_nonneg [of f rw rh] by simp
    have "wWidth f = rw \<and> wHeight f = rh" if nz: "rw \<noteq> 0 \<and> rh \<noteq> 0"
    proof -
      have "uint rw \<noteq> 0" "uint rh \<noteq> 0" using nz by (simp_all add: uint_0_iff)
      then have "0 < uint rw" "0 < uint rh" by (simp_all add: order_less_le)
      with overlap_zero_exact [of "uint (wWidth f)" "uint (wHeight f)" "uint rw" "uint rh"] f0
      have "uint (wWidth f) = uint rw \<and> uint (wHeight f) = uint rh"
        by (simp add: overlap_distance_def)
      then show ?thesis by (simp add: word_uint_eq_iff)
    qed
    with f0 show ?thesis by blast
  qed
  show "\<exists>pre f post.
         frame fm = pre @ f # post \<and>
         select_frame_size fm rw rh =
           (if overlap_distance f rw rh = 0 then length pre else length (frame fm),
            word_of_int (overlap_distance f rw rh), Some f) \<and>
         (\<forall>g\<in>set pre. overlap_distance f rw rh < overlap_distance g rw rh) \<and>
         (\<forall>g\<in>set post. overlap_distance f rw rh \<le> overlap_distance g rw rh) \<and>
         ((\<exists>g\<in>set (frame fm). wWidth g = rw \<and> wHeight g = rh) \<longrightarrow>
            overlap_distance f rw rh = 0 \<and>
            (rw \<noteq> 0 \<and> rh \<noteq> 0 \<longrightarrow> wWidth f = rw \<and> wHeight f = rh))"
    using p(1) sel lt le ex by blast
next
  show "uint (frame_dist w h rw rh) = spec_overlap_distance (uint w) (uint h) (uint rw) (uint rh)"
    by (rule frame_dist_overlap)
next
  assume a: "fmt_type fmt = stream_type stream \<and>
    find (\<lambda>f. fcc f = pix_pixelformat (pix fmt)) (format stream) = Some fm \<and>
    frame fm = []"
  then have "fcc fm = pix_pixelformat (pix fmt)"
    by (auto dest: find_Some_iff [THEN iffD1])
  moreover have "format_loop (format stream) (pix_pixelformat (pix fmt)) None = Some fm"
    using a by (simp add: format_loop_find)
  ultimately show "uvc_v4l2_try_format ext stream fmt probe = Inr (- EINVAL, fmt, probe, None, None)"
    using a by (simp add: uvc_v4l2_try_format_def select_frame_size_def)
qed


lemma uint_ucast_u16: "uint (W :: u32) < 65536 \<Longrightarrow> uint (ucast W :: u16) = uint W"
  by (simp add: unsigned_ucast_eq take_bit_int_eq_self)

lemma ucast_u16_eq: "(ucast (a :: u16) = (W :: u32)) = (uint a = uint W)"
proof -
  have "uint a < 2 ^ 32" using uint_u16_bound [of a] by simp
  then have "uint (ucast a :: u32) = uint a"
    by (simp add: unsigned_ucast_eq take_bit_int_eq_self)
  then show ?thesis by (simp add: word_uint_eq_iff)
qed

lemma ucast_u16_request:
  assumes "uint (W :: u32) < 65536"
  shows "(ucast (a :: u16) = W) = (a = ucast W)"
  using assms by (simp add: ucast_u16_eq word_uint_eq_iff [of a] uint_ucast_u16)

lemma overlap_distance_request:
  assumes "uint (pix_width (pix fmt)) < 65536" and "uint (pix_height (pix fmt)) < 65536"
  shows "overlap_distance f (ucast (pix_width (pix fmt))) (ucast (pix_height (pix fmt)))
           = request_distance f fmt"
  using assms by (simp add: overlap_distance_def request_distance_def uint_ucast_u16)

lemma ucast_u16_zero:
  assumes "uint (W :: u32) < 65536"
  shows "((ucast W :: u16) = 0) = (W = 0)"
  using assms by (simp add: word_uint_eq_iff [of "ucast W"] uint_ucast_u16 uint_0_iff)

text \<open>
  Claim C4, amended.  The requested width and height are the 32-bit fields of
  the descriptor, here below 65536, the range of the 16-bit variables the scan
  holds them in and of the frame sizes; the distance is the overlap distance
  of the specification over the integers, between a frame and the request as
  the caller wrote it.  For a format with an empty frame list
  \<open>uvc_v4l2_try_format\<close> fails with \<open>-EINVAL\<close>.  For a non-empty list
  the selected frame \<open>f\<close> splits the list into \<open>pre @ f # post\<close>: every
  frame before it is strictly farther and no frame after it is closer, so it
  is the first frame of minimal distance.  The scan leaves the loop at the
  index of \<open>f\<close> when its distance is 0 and at the end of the list otherwise.
  When the list holds a frame of exactly the requested size, the selected
  frame is at distance 0, wherever it is in the list, and it has exactly the
  requested size whenever the requested width and height are not 0.  A call of
  \<open>uvc_v4l2_try_format\<close> that returns without error stores the format and
  that frame \<open>f\<close>, and writes its size into the descriptor; a call that
  returns an error stores nothing.  The selection is a function of the format
  and the request.
\<close>

theorem try_format_closest_frame_size:
  assumes ty: "fmt_type fmt = stream_type stream"
    and fnd: "find (\<lambda>f. fcc f = pix_pixelformat (pix fmt)) (format stream) = Some fm"
    and wb: "uint (pix_width (pix fmt)) < 65536"
    and hb: "uint (pix_height (pix fmt)) < 65536"
  shows
    "(frame fm = [] \<longrightarrow>
        uvc_v4l2_try_format ext stream fmt probe = Inr (- EINVAL, fmt, probe, None, None)) \<and>
     (frame fm \<noteq> [] \<longrightarrow>
        (\<exists>pre f post.
           frame fm = pre @ f # post \<and>
           select_frame_size fm (ucast (pix_width (pix fmt))) (ucast (pix_height (pix fmt))) =
             (if request_distance f fmt = 0 then length pre else length (frame fm),
              word_of_int (request_distance f fmt), Some f) \<and>
           (\<forall>g\<in>set pre. request_distance f fmt < request_distance g fmt) \<and>
           (\<forall>g\<in>set post. request_distance f fmt \<le> request_distance g fmt) \<and>
           ((\<exists>g\<in>set (frame fm). ucast (wWidth g) = pix_width (pix fmt) \<and>
                                  ucast (wHeight g) = pix_height (pix fmt)) \<longrightarrow>
              request_distance f fmt = 0 \<and>
              (pix_width (pix fmt) \<noteq> 0 \<and> pix_height (pix fmt) \<noteq> 0 \<longrightarrow>
                 ucast (wWidth f) = pix_width (pix fmt) \<and>
                 ucast (wHeight f) = pix_height (pix fmt))) \<and>
           (\<forall>ret fmt' probe' fmo fro.
              uvc_v4l2_try_format ext stream fmt probe = Inr (ret, fmt', probe', fmo, fro) \<longrightarrow>
                (ret < 0 \<and> fmt' = fmt \<and> fmo = None \<and> fro = None) \<or>
                (0 \<le> ret \<and> fmo = Some fm \<and> fro = Some f \<and>
                 pix_width (pix fmt') = ucast (wWidth f) \<and>
                 pix_height (pix fmt') = ucast (wHeight f)))))"
proof (intro conjI impI)
  assume "frame fm = []"
  with select_frame_size_scan [of fm _ _ _ _ fmt stream ext probe] ty fnd
  show "uvc_v4l2_try_format ext stream fmt probe = Inr (- EINVAL, fmt, probe, None, None)"
    by blast
next
  assume ne: "frame fm \<noteq> []"
  let ?rw = "ucast (pix_width (pix fmt)) :: u16"
  let ?rh = "ucast (pix_height (pix fmt)) :: u16"
  note od = overlap_distance_request [OF wb hb]
  from select_frame_size_scan [of fm ?rw ?rh, THEN conjunct2, THEN conjunct1, rule_format, OF ne]
  obtain pre f post where p: "frame fm = pre @ f # post"
    "select_frame_size fm ?rw ?rh =
       (if request_distance f fmt = 0 then length pre else length (frame fm),
        word_of_int (request_distance f fmt), Some f)"
    "\<forall>g\<in>set pre. request_distance f fmt < request_distance g fmt"
    "\<forall>g\<in>set post. request_distance f fmt \<le> request_distance g fmt"
    "(\<exists>g\<in>set (frame fm). wWidth g = ?rw \<and> wHeight g = ?rh) \<longrightarrow>
            request_distance f fmt = 0 \<and>
            (?rw \<noteq> 0 \<and> ?rh \<noteq> 0 \<longrightarrow> wWidth f = ?rw \<and> wHeight f = ?rh)"
    unfolding od by blast
  have ex: "(\<exists>g\<in>set (frame fm). ucast (wWidth g) = pix_width (pix fmt) \<and>
                                  ucast (wHeight g) = pix_height (pix fmt)) \<longrightarrow>
              request_distance f fmt = 0 \<and>
              (pix_width (pix fmt) \<noteq> 0 \<and> pix_height (pix fmt) \<noteq> 0 \<longrightarrow>
                 ucast (wWidth f) = pix_width (pix fmt) \<and>
                 ucast (wHeight f) = pix_height (pix fmt))"
    using p(5)
    by (simp only: ucast_u16_request [OF wb] ucast_u16_request [OF hb]
        ucast_u16_zero [OF wb] ucast_u16_zero [OF hb])
  have tr: "(ret < 0 \<and> fmt' = fmt \<and> fmo = None \<and> fro = None) \<or>
                (0 \<le> ret \<and> fmo = Some fm \<and> fro = Some f \<and>
                 pix_width (pix fmt') = ucast (wWidth f) \<and>
                 pix_height (pix fmt') = ucast (wHeight f))"
    if t: "uvc_v4l2_try_format ext stream fmt probe = Inr (ret, fmt', probe', fmo, fro)"
    for ret fmt' probe' fmo fro
  proof (cases "ret < 0")
    case True
    with try_format_cases [OF t] show ?thesis by simp
  next
    case False
    with try_format_cases [OF t]
    obtain fm2 fr cand where c: "fmo = Some fm2" "fro = Some fr"
      "find (\<lambda>f. fcc f = pix_pixelformat (pix fmt)) (format stream) = Some fm2"
      "snd (snd (select_frame_size fm2 ?rw ?rh)) = Some fr"
      "fmt' = fmt\<lparr>pix := (pix fmt)
                      \<lparr>pix_width := ucast (wWidth fr),
                       pix_height := ucast (wHeight fr),
                       pix_field := V4L2_FIELD_NONE,
                       pix_bytesperline := word_of_nat (unat (bpp fm2) * unat (wWidth fr) div 8),
                       pix_sizeimage := ctl_dwMaxVideoFrameSize probe',
                       pix_colorspace := ucast (colorspace fm2),
                       pix_priv := 0\<rparr>\<rparr>"
      by auto
    from c(3) fnd have e: "fm2 = fm" by simp
    from c(4) p(2) e have e2: "fr = f" by simp
    show ?thesis using False c(1,2,5) e e2 by simp
  qed
  show "\<exists>pre f post.
           frame fm = pre @ f # post \<and>
           select_frame_size fm (ucast (pix_width (pix fmt))) (ucast (pix_height (pix fmt))) =
             (if request_distance f fmt = 0 then length pre else length (frame fm),
              word_of_int (request_distance f fmt), Some f) \<and>
           (\<forall>g\<in>set pre. request_distance f fmt < request_distance g fmt) \<and>
           (\<forall>g\<in>set post. request_distance f fmt \<le> request_distance g fmt) \<and>
           ((\<exists>g\<in>set (frame fm). ucast (wWidth g) = pix_width (pix fmt) \<and>
                                  ucast (wHeight g) = pix_height (pix fmt)) \<longrightarrow>
              request_distance f fmt = 0 \<and>
              (pix_width (pix fmt) \<noteq> 0 \<and> pix_height (pix fmt) \<noteq> 0 \<longrightarrow>
                 ucast (wWidth f) = pix_width (pix fmt) \<and>
                 ucast (wHeight f) = pix_height (pix fmt))) \<and>
           (\<forall>ret fmt' probe' fmo fro.
              uvc_v4l2_try_format ext stream fmt probe = Inr (ret, fmt', probe', fmo, fro) \<longrightarrow>
                (ret < 0 \<and> fmt' = fmt \<and> fmo = None \<and> fro = None) \<or>
                (0 \<le> ret \<and> fmo = Some fm \<and> fro = Some f \<and>
                 pix_width (pix fmt') = ucast (wWidth f) \<and>
                 pix_height (pix fmt') = ucast (wHeight f)))"
    apply (rule exI [of _ pre], rule exI [of _ f], rule exI [of _ post])
    apply (intro conjI allI impI)
         apply (rule p(1))
        apply (rule p(2))
       apply (rule p(3))
      apply (rule p(4))
     apply (rule ex [rule_format, THEN conjunct1], assumption)
    subgoal premises q using ex q by blast
    subgoal premises q using ex q by blast
    apply (erule tr)
    done
qed

lemma ex_try_exact:
  "uvc_v4l2_try_format example_ext example_stream
     (example_fmt\<lparr>pix := (pix example_fmt)\<lparr>pix_width := 1280, pix_height := 720\<rparr>\<rparr>)
     zero_ctrl =
   Inr (0,
        example_fmt\<lparr>pix := (pix example_fmt)
          \<lparr>pix_width := 1280, pix_height := 720, pix_field := 1, pix_bytesperline := 2560,
           pix_sizeimage := 614400, pix_colorspace := 8, pix_priv := 0\<rparr>\<rparr>,
        zero_ctrl\<lparr>ctl_bmHint := 1, ctl_bFormatIndex := 1, ctl_bFrameIndex := 2,
                  ctl_dwFrameInterval := 500000, ctl_dwMaxVideoFrameSize := 614400\<rparr>,
        Some format_yuyv, Some frame_1280x720)"
  by (simp add: example_defs try_format_eval)

theorem try_format_closest_frame_size_witness:
  "fmt_type example_fmt = stream_type example_stream \<and>
   find (\<lambda>f. fcc f = pix_pixelformat (pix example_fmt)) (format example_stream)
     = Some format_yuyv \<and>
   uint (pix_width (pix example_fmt)) < 65536 \<and>
   uint (pix_height (pix example_fmt)) < 65536 \<and>
   frame format_yuyv = [frame_640x480, frame_1280x720] \<and>
   request_distance frame_640x480 example_fmt = 28800 \<and>
   request_distance frame_1280x720 example_fmt = 585600 \<and>
   (\<exists>post.
      frame format_yuyv = [] @ frame_640x480 # post \<and>
      select_frame_size format_yuyv 700 480 = (2, 28800, Some frame_640x480) \<and>
      (\<forall>g\<in>set post.
         request_distance frame_640x480 example_fmt \<le> request_distance g example_fmt)) \<and>
   (\<exists>pre post.
      frame format_yuyv = pre @ frame_1280x720 # post \<and>
      select_frame_size format_yuyv 1280 720 = (length pre, 0, Some frame_1280x720) \<and>
      request_distance frame_1280x720
        (example_fmt\<lparr>pix := (pix example_fmt)\<lparr>pix_width := 1280, pix_height := 720\<rparr>\<rparr>) = 0 \<and>
      (\<forall>g\<in>set pre.
         0 < request_distance g
               (example_fmt\<lparr>pix := (pix example_fmt)\<lparr>pix_width := 1280, pix_height := 720\<rparr>\<rparr>))) \<and>
   uvc_v4l2_try_format example_ext
     (example_stream\<lparr>format := [format_yuyv\<lparr>frame := []\<rparr>]\<rparr>) example_fmt zero_ctrl
     = Inr (- EINVAL, example_fmt, zero_ctrl, None, None)"
proof -
  let ?f2 = "example_fmt\<lparr>pix := (pix example_fmt)\<lparr>pix_width := 1280, pix_height := 720\<rparr>\<rparr>"
  let ?s0 = "example_stream\<lparr>format := [format_yuyv\<lparr>frame := []\<rparr>]\<rparr>"
  have ty: "fmt_type example_fmt = stream_type example_stream"
    by (simp add: example_fmt_def example_stream_def)
  have fnd: "find (\<lambda>f. fcc f = pix_pixelformat (pix example_fmt)) (format example_stream)
     = Some format_yuyv"
    by (simp add: example_fmt_def example_stream_def format_yuyv_def)
  have wb: "uint (pix_width (pix example_fmt)) < 65536" by (simp add: example_fmt_def)
  have hb: "uint (pix_height (pix example_fmt)) < 65536" by (simp add: example_fmt_def)
  have fr: "frame format_yuyv = [frame_640x480, frame_1280x720]" by (simp add: format_yuyv_def)
  have ne: "frame format_yuyv \<noteq> []" by (simp add: format_yuyv_def)
  have d1: "request_distance frame_640x480 example_fmt = 28800"
    by (simp add: request_distance_def spec_overlap_distance_def example_fmt_def
        frame_640x480_def)
  have d2: "request_distance frame_1280x720 example_fmt = 585600"
    by (simp add: request_distance_def spec_overlap_distance_def example_fmt_def
        frame_1280x720_def)
  have w1: "(ucast (pix_width (pix example_fmt)) :: u16) = 700"
    and h1: "(ucast (pix_height (pix example_fmt)) :: u16) = 480"
    by (simp_all add: example_fmt_def)
  from try_format_closest_frame_size [OF ty fnd wb hb, of example_ext zero_ctrl,
      THEN conjunct2, rule_format, OF ne]
  obtain pre f post where p: "frame format_yuyv = pre @ f # post"
    "select_frame_size format_yuyv (ucast (pix_width (pix example_fmt)))
        (ucast (pix_height (pix example_fmt))) =
       (if request_distance f example_fmt = 0 then length pre else length (frame format_yuyv),
        word_of_int (request_distance f example_fmt), Some f)"
    "\<forall>g\<in>set pre. request_distance f example_fmt < request_distance g example_fmt"
    "\<forall>g\<in>set post. request_distance f example_fmt \<le> request_distance g example_fmt"
    "\<forall>ret fmt' probe' fmo fro.
        uvc_v4l2_try_format example_ext example_stream example_fmt zero_ctrl
          = Inr (ret, fmt', probe', fmo, fro) \<longrightarrow>
        (ret < 0 \<and> fmt' = example_fmt \<and> fmo = None \<and> fro = None) \<or>
        (0 \<le> ret \<and> fmo = Some format_yuyv \<and> fro = Some f \<and>
         pix_width (pix fmt') = ucast (wWidth f) \<and> pix_height (pix fmt') = ucast (wHeight f))"
    by blast
  from p(5) [rule_format, OF ex_try] have f: "f = frame_640x480" by simp
  have pre: "pre = []"
  proof (cases pre)
    case Nil then show ?thesis .
  next
    case (Cons a as)
    with p(1) fr have "a = frame_640x480" by simp
    with p(3) Cons f show ?thesis by simp
  qed
  have sel1: "select_frame_size format_yuyv 700 480 = (2, 28800, Some frame_640x480)"
    using p(2) by (simp add: w1 h1 f d1 fr)
  have c1: "\<exists>post.
      frame format_yuyv = [] @ frame_640x480 # post \<and>
      select_frame_size format_yuyv 700 480 = (2, 28800, Some frame_640x480) \<and>
      (\<forall>g\<in>set post.
         request_distance frame_640x480 example_fmt \<le> request_distance g example_fmt)"
    using p(1,4) sel1 unfolding f pre by (intro exI [of _ post] conjI)
  have ty2: "fmt_type ?f2 = stream_type example_stream"
    by (simp add: example_fmt_def example_stream_def)
  have fnd2: "find (\<lambda>f. fcc f = pix_pixelformat (pix ?f2)) (format example_stream)
     = Some format_yuyv"
    by (simp add: example_fmt_def example_stream_def format_yuyv_def)
  have wb2: "uint (pix_width (pix ?f2)) < 65536" by simp
  have hb2: "uint (pix_height (pix ?f2)) < 65536" by simp
  have w2: "(ucast (pix_width (pix ?f2)) :: u16) = 1280"
    and h2: "(ucast (pix_height (pix ?f2)) :: u16) = 720"
    by simp_all
  have ex2: "\<exists>g\<in>set (frame format_yuyv). ucast (wWidth g) = pix_width (pix ?f2) \<and>
                                  ucast (wHeight g) = pix_height (pix ?f2)"
    by (simp add: format_yuyv_def frame_1280x720_def)
  from try_format_closest_frame_size [OF ty2 fnd2 wb2 hb2, of example_ext zero_ctrl,
      THEN conjunct2, rule_format, OF ne]
  obtain pre2 f2 post2 where q: "frame format_yuyv = pre2 @ f2 # post2"
    "select_frame_size format_yuyv (ucast (pix_width (pix ?f2))) (ucast (pix_height (pix ?f2))) =
       (if request_distance f2 ?f2 = 0 then length pre2 else length (frame format_yuyv),
        word_of_int (request_distance f2 ?f2), Some f2)"
    "\<forall>g\<in>set pre2. request_distance f2 ?f2 < request_distance g ?f2"
    "(\<exists>g\<in>set (frame format_yuyv). ucast (wWidth g) = pix_width (pix ?f2) \<and>
                                  ucast (wHeight g) = pix_height (pix ?f2)) \<longrightarrow>
       request_distance f2 ?f2 = 0 \<and>
       (pix_width (pix ?f2) \<noteq> 0 \<and> pix_height (pix ?f2) \<noteq> 0 \<longrightarrow>
          ucast (wWidth f2) = pix_width (pix ?f2) \<and> ucast (wHeight f2) = pix_height (pix ?f2))"
    "\<forall>ret fmt' probe' fmo fro.
        uvc_v4l2_try_format example_ext example_stream ?f2 zero_ctrl
          = Inr (ret, fmt', probe', fmo, fro) \<longrightarrow>
        (ret < 0 \<and> fmt' = ?f2 \<and> fmo = None \<and> fro = None) \<or>
        (0 \<le> ret \<and> fmo = Some format_yuyv \<and> fro = Some f2 \<and>
         pix_width (pix fmt') = ucast (wWidth f2) \<and> pix_height (pix fmt') = ucast (wHeight f2))"
    by blast
  from q(5) [rule_format, OF ex_try_exact] have f2: "f2 = frame_1280x720" by simp
  from q(4) ex2 have z: "request_distance f2 ?f2 = 0" by (rule mp [THEN conjunct1])
  have z2: "request_distance frame_1280x720 ?f2 = 0" using z f2 by simp
  have sel2: "select_frame_size format_yuyv 1280 720 = (length pre2, 0, Some frame_1280x720)"
    using q(2) by (simp add: w2 h2 f2 z2)
  have c2: "\<exists>pre post.
      frame format_yuyv = pre @ frame_1280x720 # post \<and>
      select_frame_size format_yuyv 1280 720 = (length pre, 0, Some frame_1280x720) \<and>
      request_distance frame_1280x720 ?f2 = 0 \<and>
      (\<forall>g\<in>set pre. 0 < request_distance g ?f2)"
    using q(1,3) sel2 z2 unfolding f2 by (intro exI [of _ pre2] exI [of _ post2] conjI) simp_all
  have ty0: "fmt_type example_fmt = stream_type ?s0"
    by (simp add: example_fmt_def example_stream_def)
  have fnd0: "find (\<lambda>f. fcc f = pix_pixelformat (pix example_fmt)) (format ?s0)
     = Some (format_yuyv\<lparr>frame := []\<rparr>)"
    by (simp add: example_fmt_def example_stream_def format_yuyv_def)
  have c3: "uvc_v4l2_try_format example_ext ?s0 example_fmt zero_ctrl
     = Inr (- EINVAL, example_fmt, zero_ctrl, None, None)"
    using try_format_closest_frame_size [OF ty0 fnd0 wb hb, of example_ext zero_ctrl,
      THEN conjunct1]
    by simp
  show ?thesis
    apply (intro conjI)
    apply (rule ty)
    apply (rule fnd)
    apply (rule wb)
    apply (rule hb)
    apply (rule fr)
    apply (rule d1)
    apply (rule d2)
    apply (rule c1)
    apply (rule c2)
    apply (rule c3)
    done
qed

text \<open>
  Claim C4 as stated fails: a requested size of 65636x65636 is scanned as
  100x100, what is left of it in 16 bits, and the frame 640x480 is selected
  although 1280x720 is strictly closer to the size requested.  And with the
  frames 0x5 and 0x7 a request for 0x7 selects 0x5: the two are at distance 0
  of the request, having no area, and the first one wins over the frame of
  exactly the requested size.
\<close>

theorem try_format_not_closest:
  "uvc_v4l2_try_format example_ext example_stream
     (example_fmt\<lparr>pix := (pix example_fmt)\<lparr>pix_width := 65636, pix_height := 65636\<rparr>\<rparr>)
     zero_ctrl =
   Inr (0,
        example_fmt\<lparr>pix := (pix example_fmt)
          \<lparr>pix_width := 640, pix_height := 480, pix_field := 1, pix_bytesperline := 1280,
           pix_sizeimage := 614400, pix_colorspace := 8, pix_priv := 0\<rparr>\<rparr>,
        zero_ctrl\<lparr>ctl_bmHint := 1, ctl_bFormatIndex := 1, ctl_bFrameIndex := 1,
                  ctl_dwFrameInterval := 333333, ctl_dwMaxVideoFrameSize := 614400\<rparr>,
        Some format_yuyv, Some frame_640x480) \<and>
   frame format_yuyv = [frame_640x480, frame_1280x720] \<and>
   request_distance frame_1280x720
     (example_fmt\<lparr>pix := (pix example_fmt)\<lparr>pix_width := 65636, pix_height := 65636\<rparr>\<rparr>)
   < request_distance frame_640x480
     (example_fmt\<lparr>pix := (pix example_fmt)\<lparr>pix_width := 65636, pix_height := 65636\<rparr>\<rparr>) \<and>
   uvc_v4l2_try_format example_ext stream_flat
     (example_fmt\<lparr>pix := (pix example_fmt)\<lparr>pix_width := 0, pix_height := 7\<rparr>\<rparr>)
     zero_ctrl =
   Inr (0,
        example_fmt\<lparr>pix := (pix example_fmt)
          \<lparr>pix_width := 0, pix_height := 5, pix_field := 1, pix_bytesperline := 0,
           pix_sizeimage := 614400, pix_colorspace := 8, pix_priv := 0\<rparr>\<rparr>,
        zero_ctrl\<lparr>ctl_bmHint := 1, ctl_bFormatIndex := 1, ctl_bFrameIndex := 1,
                  ctl_dwFrameInterval := 333333, ctl_dwMaxVideoFrameSize := 614400\<rparr>,
        Some format_flat, Some frame_0x5) \<and>
   frame format_flat = [frame_0x5, frame_0x7] \<and>
   wWidth frame_0x7 = 0 \<and> wHeight frame_0x7 = 7 \<and>
   (wWidth frame_0x5, wHeight frame_0x5) = (0, 5)"
proof (intro conjI)
  show "uvc_v4l2_try_format example_ext example_stream
     (example_fmt\<lparr>pix := (pix example_fmt)\<lparr>pix_width := 65636, pix_height := 65636\<rparr>\<rparr>)
     zero_ctrl =
   Inr (0,
        example_fmt\<lparr>pix := (pix example_fmt)
          \<lparr>pix_width := 640, pix_height := 480, pix_field := 1, pix_bytesperline := 1280,
           pix_sizeimage := 614400, pix_colorspace := 8, pix_priv := 0\<rparr>\<rparr>,
        zero_ctrl\<lparr>ctl_bmHint := 1, ctl_bFormatIndex := 1, ctl_bFrameIndex := 1,
                  ctl_dwFrameInterval := 333333, ctl_dwMaxVideoFrameSize := 614400\<rparr>,
        Some format_yuyv, Some frame_640x480)"
    by (simp add: example_defs try_format_eval)
  show "frame format_yuyv = [frame_640x480, frame_1280x720]" by (simp add: format_yuyv_def)
  show "request_distance frame_1280x720
     (example_fmt\<lparr>pix := (pix example_fmt)\<lparr>pix_width := 65636, pix_height := 65636\<rparr>\<rparr>)
   < request_distance frame_640x480
     (example_fmt\<lparr>pix := (pix example_fmt)\<lparr>pix_width := 65636, pix_height := 65636\<rparr>\<rparr>)"
    by (simp add: request_distance_def spec_overlap_distance_def frame_640x480_def
        frame_1280x720_def)
  show "uvc_v4l2_try_format example_ext stream_flat
     (example_fmt\<lparr>pix := (pix example_fmt)\<lparr>pix_width := 0, pix_height := 7\<rparr>\<rparr>)
     zero_ctrl =
   Inr (0,
        example_fmt\<lparr>pix := (pix example_fmt)
          \<lparr>pix_width := 0, pix_height := 5, pix_field := 1, pix_bytesperline := 0,
           pix_sizeimage := 614400, pix_colorspace := 8, pix_priv := 0\<rparr>\<rparr>,
        zero_ctrl\<lparr>ctl_bmHint := 1, ctl_bFormatIndex := 1, ctl_bFrameIndex := 1,
                  ctl_dwFrameInterval := 333333, ctl_dwMaxVideoFrameSize := 614400\<rparr>,
        Some format_flat, Some frame_0x5)"
    by (simp add: example_defs try_format_eval stream_flat_def format_flat_def frame_0x5_def
        frame_0x7_def word_gt_0)
  show "frame format_flat = [frame_0x5, frame_0x7]" by (simp add: format_flat_def)
  show "wWidth frame_0x7 = 0" "wHeight frame_0x7 = 7" by (simp_all add: frame_0x7_def)
  show "(wWidth frame_0x5, wHeight frame_0x5) = (0, 5)" by (simp add: frame_0x5_def)
qed

section \<open>Buffer ioctls\<close>



end
